theory Spec2Isabelle
  imports Main
begin

section \<open>JavaScript strings\<close>

text \<open>
  A JavaScript string is a sequence of code units. The model uses \<^typ>\<open>string\<close>, that is, the
  code units \<open>0x00\<close> to \<open>0xFF\<close>; among these, \<open>String.prototype.trim\<close> strips tab, line feed,
  vertical tab, form feed, carriage return, space and the no-break space \<open>0xA0\<close>.
\<close>

definition is_white_space :: "char \<Rightarrow> bool" where
  "is_white_space c \<longleftrightarrow> c \<in> {CHR 0x09, CHR 0x0A, CHR 0x0B, CHR 0x0C, CHR 0x0D, CHR '' '', CHR 0xA0}"

definition trim :: "string \<Rightarrow> string" where
  "trim s = rev (dropWhile is_white_space (rev (dropWhile is_white_space s)))"

text \<open>
  \<open>s.slice(start, end)\<close>: a negative index counts from the end of the string, both indices
  are clamped to the string, and an empty range gives the empty string.
\<close>

definition slice :: "string \<Rightarrow> int \<Rightarrow> int \<Rightarrow> string" where
  "slice s start end =
     (let len = int (length s);
          from = (if start < 0 then max (len + start) 0 else min start len);
          to = (if end < 0 then max (len + end) 0 else min end len)
      in take (nat (to - from)) (drop (nat from) s))"

section \<open>The placeholder pattern\<close>

text \<open>
  Both \<open>extractVariables\<close> and \<open>replaceVariables\<close> use the global regular expression
  \<^verbatim>\<open>/{{([^{}]+)}}/g\<close>. \<open>exec_at\<close> matches the pattern anchored at the head of its
  argument and returns the matched text, capture group 1 and the input after the match:
  two opening braces, the longest run of characters other than braces (it must not be
  empty), two closing braces. A shorter run cannot match, since the character after it is
  not a closing brace.
\<close>

definition is_brace :: "char \<Rightarrow> bool" where
  "is_brace c \<longleftrightarrow> c = CHR ''{'' \<or> c = CHR ''}''"

datatype token = Text char | Match string string

fun exec_at :: "string \<Rightarrow> (string \<times> string \<times> string) option" where
  "exec_at (c1 # c2 # rest) =
     (if c1 = CHR ''{'' \<and> c2 = CHR ''{'' then
        (let g = takeWhile (\<lambda>c. \<not> is_brace c) rest;
             after = dropWhile (\<lambda>c. \<not> is_brace c) rest
         in if g \<noteq> [] \<and> take 2 after = ''}}''
            then Some (''{{'' @ g @ ''}}'', g, drop 2 after)
            else None)
      else None)"
| "exec_at _ = None"

text \<open>
  A global match scans from left to right: where the pattern matches, the scan continues
  after the match; elsewhere it moves on by one character. \<open>scan\<close> returns the matches
  in order, with the characters between them.
\<close>

function scan :: "string \<Rightarrow> token list" where
  "scan [] = []"
| "scan (c # cs) =
     (case exec_at (c # cs) of
        Some (m, g, rest) \<Rightarrow> Match m g # scan rest
      | None \<Rightarrow> Text c # scan cs)"
  by pat_completeness auto
termination
proof (relation "measure length")
  fix c cs x2 m y g rest
  assume "exec_at (c # cs) = Some x2" and "(m, y) = x2" and "(g, rest) = y"
  then have e: "exec_at (c # cs) = Some (m, g, rest)" by simp
  obtain c2 r where cs: "cs = c2 # r"
    using e by (cases cs) simp_all
  from e cs have "rest = drop 2 (dropWhile (\<lambda>c. \<not> is_brace c) r)"
    by (simp add: Let_def split: if_splits)
  moreover have "length (dropWhile (\<lambda>c. \<not> is_brace c) r) \<le> length r"
    by (rule length_dropWhile_le)
  ultimately have "length rest < length (c # cs)" using cs by simp
  then show "(rest, c # cs) \<in> measure length" by simp
qed simp_all

text \<open>
  \<open>s.match(re)\<close> with a global pattern returns the matched texts, or \<open>null\<close> when there
  is none; \<open>s.replace(re, f)\<close> replaces every match by \<open>f(match, group1)\<close>.
\<close>

definition string_match :: "string \<Rightarrow> string list option" where
  "string_match s =
     (let ms = concat (map (\<lambda>t. case t of Text c \<Rightarrow> [] | Match m g \<Rightarrow> [m]) (scan s))
      in if ms = [] then None else Some ms)"

definition string_replace :: "string \<Rightarrow> (string \<Rightarrow> string \<Rightarrow> string) \<Rightarrow> string" where
  "string_replace s f =
     concat (map (\<lambda>t. case t of Text c \<Rightarrow> [c] | Match m g \<Rightarrow> f m g) (scan s))"

text \<open>
  A JavaScript \<open>Set\<close> iterates in insertion order and ignores a value added twice:
  \<open>set_add\<close> is \<open>Set.prototype.add\<close> on the list of elements, and \<open>new Set(xs)\<close>
  adds the elements of \<open>xs\<close> one after the other to the empty set.
\<close>

definition set_add :: "'a list \<Rightarrow> 'a \<Rightarrow> 'a list" where
  "set_add s x = (if x \<in> set s then s else s @ [x])"

section \<open>Template engine\<close>

text \<open>
  \<^verbatim>\<open>
  private extractVariables(content: string): string[] {
    const variableRegex = /{{([^{}]+)}}/g
    const matches = content.match(variableRegex) || []
    return [...new Set(matches.map(match => match.slice(2, -2)))]
  }
  private replaceVariables(text: string, variables: Record<string, string>): string {
    return text.replace(/{{([^{}]+)}}/g, (match, variable) => {
      return variables[variable.trim()] || match
    })
  }
  \<close>
  The empty string is falsy, so \<open>||\<close> keeps the match for an absent value and for an
  empty one.

  The record of values is an object whose own properties are a map from names to
  strings and whose prototype is \<open>Object.prototype\<close>. Both \<open>key in obj\<close> and \<open>obj[key]\<close>
  look for the key among the own properties first and in the prototype next.
  \<open>object_prototype\<close> lists the properties of \<open>Object.prototype\<close>, each with the string its
  value is converted to when \<open>replace\<close> inserts it (the values are functions, and the
  prototype itself for \<open>__proto__\<close>; all of them are truthy).
\<close>

definition object_prototype :: "(string \<times> string) list" where
  "object_prototype =
     [(''constructor'', ''function Object() { [native code] }''),
      (''__defineGetter__'', ''function __defineGetter__() { [native code] }''),
      (''__defineSetter__'', ''function __defineSetter__() { [native code] }''),
      (''hasOwnProperty'', ''function hasOwnProperty() { [native code] }''),
      (''__lookupGetter__'', ''function __lookupGetter__() { [native code] }''),
      (''__lookupSetter__'', ''function __lookupSetter__() { [native code] }''),
      (''isPrototypeOf'', ''function isPrototypeOf() { [native code] }''),
      (''propertyIsEnumerable'', ''function propertyIsEnumerable() { [native code] }''),
      (''toString'', ''function toString() { [native code] }''),
      (''valueOf'', ''function valueOf() { [native code] }''),
      (''__proto__'', ''[object Object]''),
      (''toLocaleString'', ''function toLocaleString() { [native code] }'')]"

definition has_property :: "(string \<rightharpoonup> string) \<Rightarrow> string \<Rightarrow> bool" where
  "has_property obj key \<longleftrightarrow> obj key \<noteq> None \<or> map_of object_prototype key \<noteq> None"

definition get_property :: "(string \<rightharpoonup> string) \<Rightarrow> string \<Rightarrow> string option" where
  "get_property obj key =
     (case obj key of
        Some v \<Rightarrow> Some v
      | None \<Rightarrow> map_of object_prototype key)"

definition extractVariables :: "string \<Rightarrow> string list" where
  "extractVariables content =
     (let matches = (case string_match content of None \<Rightarrow> [] | Some ms \<Rightarrow> ms)
      in foldl set_add [] (map (\<lambda>match. slice match 2 (- 2)) matches))"

definition replaceVariables :: "string \<Rightarrow> (string \<rightharpoonup> string) \<Rightarrow> string" where
  "replaceVariables text' variables =
     string_replace text' (\<lambda>match variable.
        case get_property variables (trim variable) of
          None \<Rightarrow> match
        | Some v \<Rightarrow> if v = [] then match else v)"

section \<open>Data model\<close>

text \<open>
  The interfaces of \<open>types/index.ts\<close>. A name that Isabelle reserves, or that is taken, is
  primed: \<open>id'\<close>, \<open>text'\<close>, \<open>includes'\<close>, \<open>content'\<close> (the content of a message; \<open>content\<close> is the text
  of a single-content prompt) and \<open>messages'\<close> (of a result). An optional field is an
  \<open>option\<close>: \<open>None\<close> is an absent field (\<open>undefined\<close>).

  \<open>Prompt\<close> is the union \<open>SingleContentPrompt | MultiMessagePrompt\<close> as the object it is at
  run time: the fields of both variants, those of the other variant absent.
\<close>

record MessageContent =
  type :: string
  text' :: "string option"
  image :: "string option"

record PromptMessage =
  role :: string
  content' :: MessageContent

record Prompt =
  id' :: string
  name :: string
  description :: "string option"
  variables :: "string list"
  createdAt :: string
  updatedAt :: "string option"
  content :: "string option"
  version :: "string option"
  messages :: "PromptMessage list option"

definition isMultiMessagePrompt :: "Prompt \<Rightarrow> bool" where
  "isMultiMessagePrompt prompt \<longleftrightarrow> version prompt \<noteq> None \<and> version prompt = Some ''2.0''"

definition isSingleContentPrompt :: "Prompt \<Rightarrow> bool" where
  "isSingleContentPrompt prompt \<longleftrightarrow> content prompt \<noteq> None"

record DeletePromptResult =
  success :: bool
  message :: string

record UpdatePromptResult = DeletePromptResult +
  prompt :: Prompt

record ApplyPromptResult =
  result :: string
  messages' :: "PromptMessage list option"

section \<open>Errors\<close>

text \<open>
  The error classes of \<open>utils/mcp-error.ts\<close>, JavaScript's \<open>Error\<close> (thrown by the file
  system service) and \<open>TypeError\<close> (a property read on \<open>undefined\<close>), each with its message.
  A function that throws returns \<open>Inl\<close> of the error.
\<close>

datatype error =
    ValidationError string
  | NotFoundError string
  | Error string
  | TypeError string

fun error_message :: "error \<Rightarrow> string" where
  "error_message (ValidationError m) = m"
| "error_message (NotFoundError m) = m"
| "error_message (Error m) = m"
| "error_message (TypeError m) = m"

text \<open>\<open>s.includes(sub)\<close>, \<open>s.endsWith(suffix)\<close> and \<open>xs.join(sep)\<close>.\<close>

primrec includes' :: "string \<Rightarrow> string \<Rightarrow> bool" where
  "includes' [] sub \<longleftrightarrow> sub = []"
| "includes' (c # cs) sub \<longleftrightarrow> take (length sub) (c # cs) = sub \<or> includes' cs sub"

definition endsWith :: "string \<Rightarrow> string \<Rightarrow> bool" where
  "endsWith s suffix \<longleftrightarrow>
     length suffix \<le> length s \<and> drop (length s - length suffix) s = suffix"

fun join :: "string list \<Rightarrow> string \<Rightarrow> string" where
  "join [] sep = []"
| "join [x] sep = x"
| "join (x # y # ys) sep = x @ sep @ join (y # ys) sep"

text \<open>
  The \<open>catch\<close> blocks of \<open>getPrompt\<close>, \<open>deletePrompt\<close> and \<open>updatePrompt\<close>:
  \<^verbatim>\<open>
  if (error instanceof Error && error.message.includes('not found')) {
    throw new NotFoundError(`Prompt not found: ${id}`)
  }
  throw error
  \<close>
\<close>

definition rethrow :: "string \<Rightarrow> error \<Rightarrow> error" where
  "rethrow pid e =
     (if includes' (error_message e) ''not found''
      then NotFoundError (''Prompt not found: '' @ pid)
      else e)"

section \<open>File system service\<close>

text \<open>
  The prompts directory: its entries in the order \<open>readdir\<close> enumerates them, each with
  what reading and parsing it gives (a parsed value, or the message of the \<open>SyntaxError\<close>
  of \<open>JSON.parse\<close>); the operations that fail with an I/O error other than \<open>ENOENT\<close>, with
  the message; and the log of the operations performed so far. A file is named by its
  name in the directory: \<open>path.join(promptsDir, f)\<close> is the entry \<open>f\<close>.
  \<open>JSON.parse\<close> of what \<open>JSON.stringify\<close> wrote gives the value back, and
  \<open>readJSONFile<Prompt>\<close> casts without checking, so a parsed entry is a \<open>Prompt\<close>.
\<close>

datatype fs_op = ReadFile string | WriteFile string | Unlink string | Readdir

datatype entry = Json Prompt | Malformed string

record fs =
  files :: "(string \<times> entry) list"
  fault :: "fs_op \<Rightarrow> string option"
  log :: "fs_op list"

fun write_entry :: "string \<Rightarrow> entry \<Rightarrow> (string \<times> entry) list \<Rightarrow> (string \<times> entry) list" where
  "write_entry p f [] = [(p, f)]"
| "write_entry p f ((q, g) # es) = (if p = q then (p, f) # es else (q, g) # write_entry p f es)"

definition performed :: "fs \<Rightarrow> fs_op \<Rightarrow> fs" where
  "performed s op = s\<lparr>log := log s @ [op]\<rparr>"

definition readJSONFile :: "fs \<Rightarrow> string \<Rightarrow> (error + Prompt) \<times> fs" where
  "readJSONFile s filePath =
     ((case fault s (ReadFile filePath) of
         Some msg \<Rightarrow> Inl (Error (''Failed to read file: '' @ msg))
       | None \<Rightarrow>
           (case map_of (files s) filePath of
              None \<Rightarrow> Inl (NotFoundError (''File not found: '' @ filePath))
            | Some (Malformed msg) \<Rightarrow> Inl (Error (''Failed to read file: '' @ msg))
            | Some (Json v) \<Rightarrow> Inr v)),
      performed s (ReadFile filePath))"

definition writeJSONFile :: "fs \<Rightarrow> string \<Rightarrow> Prompt \<Rightarrow> (error + unit) \<times> fs" where
  "writeJSONFile s filePath data =
     (case fault s (WriteFile filePath) of
        Some msg \<Rightarrow>
          (Inl (Error (''Failed to write file: '' @ msg)), performed s (WriteFile filePath))
      | None \<Rightarrow>
          (Inr (), (performed s (WriteFile filePath))
                     \<lparr>files := write_entry filePath (Json data) (files s)\<rparr>))"

definition deleteFile :: "fs \<Rightarrow> string \<Rightarrow> (error + unit) \<times> fs" where
  "deleteFile s filePath =
     (case fault s (Unlink filePath) of
        Some msg \<Rightarrow>
          (Inl (Error (''Failed to delete file: '' @ msg)), performed s (Unlink filePath))
      | None \<Rightarrow>
          (case map_of (files s) filePath of
             None \<Rightarrow>
               (Inl (NotFoundError (''File not found: '' @ filePath)),
                performed s (Unlink filePath))
           | Some f \<Rightarrow>
               (Inr (), (performed s (Unlink filePath))
                          \<lparr>files := filter (\<lambda>e. fst e \<noteq> filePath) (files s)\<rparr>)))"

definition listFiles :: "fs \<Rightarrow> string \<Rightarrow> (error + string list) \<times> fs" where
  "listFiles s extension =
     ((case fault s Readdir of
         Some msg \<Rightarrow> Inl (Error (''Failed to list files: '' @ msg))
       | None \<Rightarrow> Inr (filter (\<lambda>file. endsWith file extension) (map fst (files s)))),
      performed s Readdir)"

section \<open>Message validation\<close>

text \<open>
  \<open>PromptValidationUtils.isValidMessage\<close> and \<open>validateMessages\<close>. In the model a message
  has a content whose \<open>type\<close> is a string, so the second test of \<open>isValidMessage\<close> never
  fails; \<open>typeof text === 'string'\<close> holds when the field is present.
\<close>

definition isValidMessage :: "PromptMessage \<Rightarrow> bool" where
  "isValidMessage m =
     (if role m \<noteq> ''user'' \<and> role m \<noteq> ''assistant'' then False
      else if type (content' m) = ''text'' then text' (content' m) \<noteq> None
      else if type (content' m) = ''image'' then image (content' m) \<noteq> None
      else False)"

definition validateMessages :: "PromptMessage list \<Rightarrow> bool" where
  "validateMessages msgs = (if msgs = [] then False else list_all isValidMessage msgs)"

section \<open>Prompts service\<close>

text \<open>
  The methods of \<open>PromptsService\<close>. Each takes the file system and returns its result, or
  the error it throws, with the file system it leaves. The parameters \<open>params.x\<close> are the
  arguments \<open>px\<close>; \<open>uuid\<close> is the value of \<open>uuidv4()\<close> and \<open>now\<close> that of
  \<open>new Date().toISOString()\<close>. \<open>!s\<close> holds of an absent string and of the empty one.
\<close>

definition blank :: "string \<Rightarrow> bool" where
  "blank s \<longleftrightarrow> s = [] \<or> trim s = []"

definition falsy :: "string option \<Rightarrow> bool" where
  "falsy s \<longleftrightarrow> s = None \<or> s = Some []"

text \<open>
  \<^verbatim>\<open>
  for (const message of messages) {
    if (message.content.type === 'text' && message.content.text) {
      const messageVars = this.extractVariables(message.content.text)
      messageVars.forEach(variable => variables.add(variable))
    }
  }
  return Array.from(variables)
  \<close>
\<close>

definition extractVariablesFromMessages :: "PromptMessage list \<Rightarrow> string list" where
  "extractVariablesFromMessages msgs =
     foldl (\<lambda>vars m.
              (case text' (content' m) of
                 Some t \<Rightarrow>
                   if type (content' m) = ''text'' \<and> t \<noteq> []
                   then foldl set_add vars (extractVariables t)
                   else vars
               | None \<Rightarrow> vars))
       [] msgs"

definition addPrompt ::
  "fs \<Rightarrow> string \<Rightarrow> string \<Rightarrow> string \<Rightarrow> string \<Rightarrow> string option \<Rightarrow> (error + Prompt) \<times> fs" where
  "addPrompt s uuid now pname pcontent pdescription =
     (if blank pname then (Inl (ValidationError ''Prompt name is required''), s)
      else if blank pcontent then (Inl (ValidationError ''Prompt content is required''), s)
      else
        (let pid = ''prompt-'' @ slice uuid 0 8;
             new = \<lparr>id' = pid,
                    name = trim pname,
                    description = Some (case pdescription of None \<Rightarrow> [] | Some d \<Rightarrow> trim d),
                    variables = extractVariables pcontent,
                    createdAt = now,
                    updatedAt = Some now,
                    content = Some pcontent,
                    version = None,
                    messages = None\<rparr>
         in case writeJSONFile s (pid @ ''.json'') new of
              (Inl e, s') \<Rightarrow> (Inl e, s')
            | (Inr u, s') \<Rightarrow> (Inr new, s')))"

definition addMultiMessagePrompt ::
  "fs \<Rightarrow> string \<Rightarrow> string \<Rightarrow> string \<Rightarrow> string option \<Rightarrow> PromptMessage list
     \<Rightarrow> (error + Prompt) \<times> fs" where
  "addMultiMessagePrompt s uuid now pname pdescription pmessages =
     (if blank pname then (Inl (ValidationError ''Prompt name is required''), s)
      else if pmessages = [] then (Inl (ValidationError ''At least one message is required''), s)
      else if \<not> validateMessages pmessages
        then (Inl (ValidationError ''Invalid message structure''), s)
      else
        (let pid = ''prompt-'' @ slice uuid 0 8;
             new = \<lparr>id' = pid,
                    name = trim pname,
                    description = Some (case pdescription of None \<Rightarrow> [] | Some d \<Rightarrow> trim d),
                    variables = extractVariablesFromMessages pmessages,
                    createdAt = now,
                    updatedAt = None,
                    content = None,
                    version = Some ''2.0'',
                    messages = Some pmessages\<rparr>
         in case writeJSONFile s (pid @ ''.json'') new of
              (Inl e, s') \<Rightarrow> (Inl e, s')
            | (Inr u, s') \<Rightarrow> (Inr new, s')))"

definition getPrompt :: "fs \<Rightarrow> string \<Rightarrow> (error + Prompt) \<times> fs" where
  "getPrompt s pid =
     (if blank pid then (Inl (ValidationError ''Prompt ID is required''), s)
      else
        (case readJSONFile s (pid @ ''.json'') of
           (Inl e, s') \<Rightarrow> (Inl (rethrow pid e), s')
         | (Inr found, s') \<Rightarrow> (Inr found, s')))"

text \<open>
  The loop of \<open>listPrompts\<close>: a file that cannot be read is logged to the console and
  skipped.
\<close>

fun readAll :: "fs \<Rightarrow> string list \<Rightarrow> Prompt list \<Rightarrow> Prompt list \<times> fs" where
  "readAll s [] prompts = (prompts, s)"
| "readAll s (file # rest) prompts =
     (case readJSONFile s file of
        (Inl e, s') \<Rightarrow> readAll s' rest prompts
      | (Inr found, s') \<Rightarrow> readAll s' rest (prompts @ [found]))"

definition listPrompts :: "fs \<Rightarrow> (error + Prompt list) \<times> fs" where
  "listPrompts s =
     (case listFiles s ''.json'' of
        (Inl e, s') \<Rightarrow> (Inl e, s')
      | (Inr fnames, s') \<Rightarrow>
          (case readAll s' fnames [] of (prompts, s'') \<Rightarrow> (Inr prompts, s'')))"

definition deletePrompt :: "fs \<Rightarrow> string \<Rightarrow> (error + DeletePromptResult) \<times> fs" where
  "deletePrompt s pid =
     (if blank pid then (Inl (ValidationError ''Prompt ID is required''), s)
      else
        (case getPrompt s pid of
           (Inl e, s') \<Rightarrow> (Inl (rethrow pid e), s')
         | (Inr found, s') \<Rightarrow>
             (case deleteFile s' (pid @ ''.json'') of
                (Inl e, s'') \<Rightarrow> (Inl (rethrow pid e), s'')
              | (Inr u, s'') \<Rightarrow>
                  (Inr \<lparr>success = True,
                        message = ''Prompt '' @ pid @ '' deleted successfully''\<rparr>, s''))))"

text \<open>
  The three branches of \<open>updatePrompt\<close> that build the updated prompt. A spread
  \<open>...(c && {f: v})\<close> sets the field \<open>f\<close> when \<open>c\<close> is truthy and nothing otherwise; an empty
  array is truthy, so \<open>params.messages\<close> is truthy whenever it is present.
\<close>

definition updatedPrompt ::
  "Prompt \<Rightarrow> string \<Rightarrow> string option \<Rightarrow> string option \<Rightarrow> PromptMessage list option \<Rightarrow> Prompt" where
  "updatedPrompt existingPrompt now pname pdescription pmessages =
     (if isMultiMessagePrompt existingPrompt then
        (let p1 = (case pname of
                     Some n \<Rightarrow> if n \<noteq> [] then existingPrompt\<lparr>name := trim n\<rparr> else existingPrompt
                   | None \<Rightarrow> existingPrompt);
             p2 = (case pdescription of
                     Some d \<Rightarrow> p1\<lparr>description := Some (trim d)\<rparr>
                   | None \<Rightarrow> p1);
             p3 = (case pmessages of
                     Some ms \<Rightarrow> p2\<lparr>messages := Some ms,
                                    variables := extractVariablesFromMessages ms\<rparr>
                   | None \<Rightarrow> p2)
         in p3\<lparr>updatedAt := Some now\<rparr>)
      else
        (case pmessages of
           Some ms \<Rightarrow>
             \<lparr>id' = id' existingPrompt,
              name = (case pname of
                        Some n \<Rightarrow> if trim n \<noteq> [] then trim n else name existingPrompt
                      | None \<Rightarrow> name existingPrompt),
              description = (case pdescription of
                               Some d \<Rightarrow> Some (trim d)
                             | None \<Rightarrow> description existingPrompt),
              variables = extractVariablesFromMessages ms,
              createdAt = createdAt existingPrompt,
              updatedAt = Some now,
              content = None,
              version = Some ''2.0'',
              messages = Some ms\<rparr>
         | None \<Rightarrow>
             (let p1 = (case pname of
                          Some n \<Rightarrow> if n \<noteq> [] then existingPrompt\<lparr>name := trim n\<rparr> else existingPrompt
                        | None \<Rightarrow> existingPrompt);
                  p2 = (case pdescription of
                          Some d \<Rightarrow> p1\<lparr>description := Some (trim d)\<rparr>
                        | None \<Rightarrow> p1)
              in p2\<lparr>updatedAt := Some now\<rparr>)))"

definition updatePrompt ::
  "fs \<Rightarrow> string \<Rightarrow> string \<Rightarrow> string option \<Rightarrow> string option \<Rightarrow> PromptMessage list option
     \<Rightarrow> (error + UpdatePromptResult) \<times> fs" where
  "updatePrompt s now pid pname pdescription pmessages =
     (if blank pid then (Inl (ValidationError ''Prompt ID is required''), s)
      else if falsy pname \<and> falsy pdescription \<and> pmessages = None
        then (Inl (ValidationError ''At least one field to update must be provided''), s)
      else
        (case getPrompt s pid of
           (Inl e, s') \<Rightarrow> (Inl (rethrow pid e), s')
         | (Inr existingPrompt, s') \<Rightarrow>
             (let new = updatedPrompt existingPrompt now pname pdescription pmessages
              in case writeJSONFile s' (pid @ ''.json'') new of
                   (Inl e, s'') \<Rightarrow> (Inl (rethrow pid e), s'')
                 | (Inr u, s'') \<Rightarrow>
                     (Inr \<lparr>success = True,
                           message = ''Prompt '' @ pid @ '' updated successfully'',
                           prompt = new\<rparr>, s''))))"

text \<open>
  \<open>applyPrompt\<close>. The values are the own properties of the \<open>variables\<close> object, a map
  from names to strings; \<open>None\<close> for the parameter is a call without the argument. The
  test \<open>variable in params.variables\<close> is \<open>has_property\<close>. \<open>stringify\<close> stands for
  \<open>JSON.stringify(_, null, 2)\<close> on the message list. Reading \<open>messages\<close> or \<open>content\<close> of a
  stored object that lacks the field throws a \<open>TypeError\<close>. The \<open>catch\<close> block logs and
  throws the error again.
\<close>

definition applyMessage :: "(string \<rightharpoonup> string) \<Rightarrow> PromptMessage \<Rightarrow> PromptMessage" where
  "applyMessage vars m =
     m\<lparr>content' :=
       (case text' (content' m) of
          Some t \<Rightarrow>
            if type (content' m) = ''text'' \<and> t \<noteq> []
            then (content' m)\<lparr>text' := Some (replaceVariables t vars)\<rparr>
            else content' m
        | None \<Rightarrow> content' m)\<rparr>"

definition applyPrompt ::
  "fs \<Rightarrow> (PromptMessage list \<Rightarrow> string) \<Rightarrow> string \<Rightarrow> (string \<rightharpoonup> string) option
     \<Rightarrow> (error + ApplyPromptResult) \<times> fs" where
  "applyPrompt s stringify pid pvariables =
     (if blank pid then (Inl (ValidationError ''Prompt ID is required''), s)
      else
        (case pvariables of
           None \<Rightarrow> (Inl (ValidationError ''Variables must be provided as an object''), s)
         | Some vars \<Rightarrow>
             (case getPrompt s pid of
                (Inl e, s') \<Rightarrow> (Inl e, s')
              | (Inr found, s') \<Rightarrow>
                  (let missingVariables = filter (\<lambda>variable. \<not> has_property vars variable) (variables found)
                   in if missingVariables \<noteq> [] then
                        (Inl (ValidationError
                           (''Missing required variables: '' @ join missingVariables '', '')), s')
                      else if isMultiMessagePrompt found then
                        (case messages found of
                           None \<Rightarrow>
                             (Inl (TypeError
                                ''Cannot read properties of undefined (reading 'map')''), s')
                         | Some ms \<Rightarrow>
                             (let appliedMessages = map (applyMessage vars) ms
                              in (Inr \<lparr>result = stringify appliedMessages,
                                       messages' = Some appliedMessages\<rparr>, s')))
                      else
                        (case content found of
                           None \<Rightarrow>
                             (Inl (TypeError
                                ''Cannot read properties of undefined (reading 'replace')''), s')
                         | Some c \<Rightarrow>
                             (Inr \<lparr>result = replaceVariables c vars, messages' = None\<rparr>, s'))))))"

section \<open>Notions used in the statements\<close>

text \<open>
  A placeholder is the text \<open>{{g}}\<close> for a name \<open>g\<close> that is not empty and contains no brace.
\<close>

definition placeholder :: "string \<Rightarrow> string" where
  "placeholder g = ''{{'' @ g @ ''}}''"

definition valid_name :: "string \<Rightarrow> bool" where
  "valid_name g \<longleftrightarrow> g \<noteq> [] \<and> (\<forall>c\<in>set g. \<not> is_brace c)"

fun token_text :: "token \<Rightarrow> string" where
  "token_text (Text c) = [c]"
| "token_text (Match m g) = m"

fun token_names :: "token \<Rightarrow> string list" where
  "token_names (Text c) = []"
| "token_names (Match m g) = [g]"

definition names :: "string \<Rightarrow> string list" where
  "names s = concat (map token_names (scan s))"

text \<open>
  The characters of a text that lie outside its placeholders.
\<close>

definition literal_text :: "string \<Rightarrow> string" where
  "literal_text s = concat (map (\<lambda>t. case t of Text c \<Rightarrow> [c] | Match m g \<Rightarrow> []) (scan s))"

text \<open>
  Two file systems hold the same store when they differ in the log of operations only.
\<close>

definition same_store :: "fs \<Rightarrow> fs \<Rightarrow> bool" where
  "same_store s t \<longleftrightarrow> files s = files t \<and> fault s = fault t"

section \<open>A sample store\<close>

text \<open>
  An empty directory, and a directory with a single-content prompt, a multi-message
  prompt (a text message with a placeholder and an image message), a file that is not
  valid JSON and a file of another kind; no operation fails with an I/O error. The last
  definition is a message of type \<open>text\<close> that has no text.
\<close>

definition no_faults :: "fs_op \<Rightarrow> string option" where
  "no_faults op = None"

definition empty_fs :: fs where
  "empty_fs = \<lparr>files = [], fault = no_faults, log = []\<rparr>"

definition greeting :: Prompt where
  "greeting =
     \<lparr>id' = ''prompt-1'', name = ''Greeting'', description = Some [],
      variables = [''name'', ''day'', ''city''], createdAt = ''T0'', updatedAt = Some ''T0'',
      content = Some ''Hello {{name}}, it is {{day}} in {{city}}'', version = None,
      messages = None\<rparr>"

definition chat_messages :: "PromptMessage list" where
  "chat_messages =
     [\<lparr>role = ''assistant'',
       content' = \<lparr>type = ''text'', text' = Some ''You greet {{name}}'', image = None\<rparr>\<rparr>,
      \<lparr>role = ''user'',
       content' = \<lparr>type = ''image'', text' = Some ''{{name}}'', image = Some ''aGk=''\<rparr>\<rparr>]"

definition chat :: Prompt where
  "chat =
     \<lparr>id' = ''prompt-2'', name = ''Chat'', description = Some [],
      variables = [''name''], createdAt = ''T0'', updatedAt = None,
      content = None, version = Some ''2.0'', messages = Some chat_messages\<rparr>"

definition sample_fs :: fs where
  "sample_fs =
     \<lparr>files = [(''prompt-1.json'', Json greeting),
               (''prompt-3.json'', Malformed ''Unexpected end of JSON input''),
               (''notes.txt'', Malformed ''Unexpected token''),
               (''prompt-2.json'', Json chat)],
      fault = no_faults, log = []\<rparr>"

definition textless :: PromptMessage where
  "textless = \<lparr>role = ''user'', content' = \<lparr>type = ''text'', text' = None, image = None\<rparr>\<rparr>"

section \<open>Placeholders of a text\<close>

subsection \<open>The anchored match\<close>

lemma exec_at_placeholder:
  assumes "valid_name g"
  shows "exec_at (placeholder g @ rest) = Some (placeholder g, g, rest)"
proof -
  let ?P = "\<lambda>c. \<not> is_brace c"
  have tw: "takeWhile ?P (g @ ''}}'' @ rest) = g"
    using assms by (simp add: valid_name_def is_brace_def)
  have dw: "dropWhile ?P (g @ ''}}'' @ rest) = ''}}'' @ rest"
    using assms by (simp add: valid_name_def is_brace_def)
  have ne: "g \<noteq> []" using assms by (simp add: valid_name_def)
  have "exec_at (CHR ''{'' # CHR ''{'' # (g @ ''}}'' @ rest)) = Some (''{{'' @ g @ ''}}'', g, rest)"
    unfolding exec_at.simps tw dw Let_def using ne by simp
  then show ?thesis by (simp add: placeholder_def)
qed

lemma exec_at_SomeD:
  assumes "exec_at s = Some (m, g, rest)"
  shows "valid_name g \<and> m = placeholder g \<and> s = m @ rest"
proof (cases s rule: exec_at.cases)
  case (1 c1 c2 r)
  let ?P = "\<lambda>c. \<not> is_brace c"
  let ?g = "takeWhile ?P r" and ?a = "dropWhile ?P r"
  from assms 1 have c: "c1 = CHR ''{''" "c2 = CHR ''{''"
    by (auto split: if_splits)
  from assms 1 c have ok: "?g \<noteq> [] \<and> take 2 ?a = ''}}''"
    by (auto simp: Let_def split: if_splits)
  from assms 1 c ok have res: "m = ''{{'' @ ?g @ ''}}''" "g = ?g" "rest = drop 2 ?a"
    by (auto simp: Let_def)
  have bf: "\<forall>c\<in>set ?g. \<not> is_brace c" by (auto dest: set_takeWhileD)
  have "?a = take 2 ?a @ drop 2 ?a" by simp
  with ok have a: "?a = ''}}'' @ drop 2 ?a" by simp
  have "r = ?g @ ?a" by simp
  with a have r: "r = ?g @ ''}}'' @ drop 2 ?a" by simp
  have v: "valid_name g" using ok bf res(2) by (simp add: valid_name_def)
  have m: "m = placeholder g" using res by (simp add: placeholder_def)
  have "s = c1 # c2 # r" by (rule 1)
  also have "\<dots> = ''{{'' @ (?g @ ''}}'' @ drop 2 ?a)" using c r by simp
  also have "\<dots> = m @ rest" using res by simp
  finally show ?thesis using v m by simp
qed (use assms in simp_all)

lemma exec_at_Some_iff:
  "exec_at s = Some (m, g, rest) \<longleftrightarrow> valid_name g \<and> m = placeholder g \<and> s = m @ rest"
  using exec_at_SomeD exec_at_placeholder by blast

lemma exec_at_extend:
  "exec_at s = Some (m, g, rest) \<Longrightarrow> exec_at (s @ x) = Some (m, g, rest @ x)"
  by (simp add: exec_at_Some_iff)

lemma exec_at_None_extend:
  assumes none: "exec_at (c # cs) = None" and g: "valid_name g"
  shows "exec_at (c # cs @ placeholder g @ post) = None"
proof (rule ccontr)
  assume "exec_at (c # cs @ placeholder g @ post) \<noteq> None"
  then obtain m' g' r' where "exec_at (c # cs @ placeholder g @ post) = Some (m', g', r')"
    by auto
  then have g': "valid_name g'" and eq: "(c # cs) @ (placeholder g @ post) = placeholder g' @ r'"
    by (auto dest: exec_at_SomeD)
  have nb: "CHR ''{'' \<notin> set (g' @ ''}}'')"
    using g' by (auto simp: valid_name_def is_brace_def)
  from eq obtain us where
    "(c # cs = placeholder g' @ us \<and> us @ placeholder g @ post = r') \<or>
     ((c # cs) @ us = placeholder g' \<and> placeholder g @ post = us @ r')"
    unfolding append_eq_append_conv2 by blast
  then show False
  proof
    assume "c # cs = placeholder g' @ us \<and> us @ placeholder g @ post = r'"
    then have "exec_at (c # cs) = Some (placeholder g', g', us)"
      using g' by (simp add: exec_at_placeholder)
    with none show False by simp
  next
    assume a: "(c # cs) @ us = placeholder g' \<and> placeholder g @ post = us @ r'"
    show False
    proof (cases us)
      case Nil
      with a have "c # cs = placeholder g' @ []" by simp
      then have "exec_at (c # cs) = Some (placeholder g', g', [])"
        using g' exec_at_placeholder by metis
      with none show False by simp
    next
      case (Cons u us')
      with a have u: "u = CHR ''{''" by (simp add: placeholder_def)
      from a have cs: "cs @ us = CHR ''{'' # (g' @ ''}}'')" by (simp add: placeholder_def)
      show False
      proof (cases cs)
        case Nil
        with cs have us: "us = CHR ''{'' # (g' @ ''}}'')" by simp
        with a have "CHR ''{'' # (g @ ''}}'' @ post) = g' @ ''}}'' @ r'"
          by (simp add: placeholder_def)
        then have "CHR ''{'' \<in> set (g' @ ''}}'')"
          using g' by (cases g') (auto simp: valid_name_def)
        with nb show False by simp
      next
        case (Cons d cs')
        with cs have "cs' @ us = g' @ ''}}''" by simp
        then have "set us \<subseteq> set (g' @ ''}}'')"
          by (metis set_append Un_upper2)
        with \<open>us = u # us'\<close> u nb show False by auto
      qed
    qed
  qed
qed

lemma scan_append_placeholder:
  assumes g: "valid_name g"
  shows "scan (pre @ placeholder g @ post) = scan pre @ Match (placeholder g) g # scan post"
proof (induction pre rule: scan.induct)
  case 1
  have "placeholder g @ post = CHR ''{'' # tl (placeholder g @ post)"
    by (simp add: placeholder_def)
  then have "scan (placeholder g @ post) =
      (case exec_at (placeholder g @ post) of
        Some (m, g, rest) \<Rightarrow> Match m g # scan rest
      | None \<Rightarrow> Text (CHR ''{'') # scan (tl (placeholder g @ post)))"
    by (metis scan.simps(2))
  then show ?case using g by (simp add: exec_at_placeholder)
next
  case (2 c cs)
  show ?case
  proof (cases "exec_at (c # cs)")
    case None
    then have "exec_at (c # cs @ placeholder g @ post) = None"
      using g by (rule exec_at_None_extend)
    with None 2 show ?thesis by simp
  next
    case (Some t)
    then obtain m' g' r' where t: "exec_at (c # cs) = Some (m', g', r')"
      by (cases t) auto
    then have "exec_at ((c # cs) @ placeholder g @ post) = Some (m', g', r' @ placeholder g @ post)"
      by (rule exec_at_extend)
    with t 2 show ?thesis by simp
  qed
qed

subsection \<open>The scan\<close>

lemma scan_Cons_Some:
  "exec_at (c # cs) = Some (m, g, r) \<Longrightarrow> scan (c # cs) = Match m g # scan r"
  by simp

lemma scan_Cons_None:
  "exec_at (c # cs) = None \<Longrightarrow> scan (c # cs) = Text c # scan cs"
  by simp

lemma scan_Match:
  "Match m g \<in> set (scan s) \<Longrightarrow> m = placeholder g \<and> valid_name g"
proof (induction s rule: scan.induct)
  case 1
  then show ?case by simp
next
  case (2 c cs)
  show ?case
  proof (cases "exec_at (c # cs)")
    case None
    with "2.prems" have "Match m g \<in> set (scan cs)" by (simp add: scan_Cons_None)
    with "2.IH"(1)[OF None] show ?thesis .
  next
    case (Some t)
    then obtain m' g' r' where t: "exec_at (c # cs) = Some (m', g', r')"
      by (cases t) auto
    from "2.prems" have "Match m g = Match m' g' \<or> Match m g \<in> set (scan r')"
      unfolding scan_Cons_Some[OF t] by simp
    then show ?thesis
    proof
      assume "Match m g = Match m' g'"
      with exec_at_SomeD[OF t] show ?thesis by simp
    next
      assume "Match m g \<in> set (scan r')"
      with "2.IH"(2)[OF t refl refl] show ?thesis .
    qed
  qed
qed

lemma scan_text: "concat (map token_text (scan s)) = s"
proof (induction s rule: scan.induct)
  case 1
  then show ?case by simp
next
  case (2 c cs)
  show ?case
  proof (cases "exec_at (c # cs)")
    case None
    with "2.IH"(1)[OF None] show ?thesis by (simp add: scan_Cons_None)
  next
    case (Some t)
    then obtain m' g' r' where t: "exec_at (c # cs) = Some (m', g', r')"
      by (cases t) auto
    from exec_at_SomeD[OF t] have "c # cs = m' @ r'" by simp
    with "2.IH"(2)[OF t refl refl] show ?thesis
      unfolding scan_Cons_Some[OF t] by simp
  qed
qed

lemma names_Nil [simp]: "names [] = []"
  by (simp add: names_def)

lemma names_append_placeholder:
  "valid_name g \<Longrightarrow> names (pre @ placeholder g @ post) = names pre @ g # names post"
  by (simp add: names_def scan_append_placeholder)

lemma names_split:
  "names s = us @ a # vs \<Longrightarrow>
   \<exists>pre post. s = pre @ placeholder a @ post \<and> names pre = us \<and> names post = vs \<and> valid_name a"
proof (induction s arbitrary: us rule: scan.induct)
  case 1
  then show ?case by simp
next
  case (2 c cs)
  show ?case
  proof (cases "exec_at (c # cs)")
    case None
    with "2.prems" have "names cs = us @ a # vs" by (simp add: names_def)
    from "2.IH"(1)[OF None this] obtain pre post where
      p: "cs = pre @ placeholder a @ post" "names pre = us" "names post = vs" "valid_name a"
      by blast
    have "exec_at (c # pre) = None"
    proof (rule ccontr)
      assume "exec_at (c # pre) \<noteq> None"
      then obtain m' g' r' where "exec_at (c # pre) = Some (m', g', r')" by auto
      from exec_at_extend[OF this, of "placeholder a @ post"] None p(1)
      show False by simp
    qed
    then have "names (c # pre) = names pre" by (simp add: names_def)
    with p have "c # cs = (c # pre) @ placeholder a @ post \<and> names (c # pre) = us
        \<and> names post = vs \<and> valid_name a"
      by simp
    then show ?thesis by blast
  next
    case (Some t)
    then obtain m' g' r' where t: "exec_at (c # cs) = Some (m', g', r')"
      by (cases t) auto
    from exec_at_SomeD[OF t] have g': "valid_name g'" "m' = placeholder g'" "c # cs = m' @ r'"
      by simp_all
    from "2.prems" have n: "g' # names r' = us @ a # vs"
      unfolding names_def scan_Cons_Some[OF t] by simp
    show ?thesis
    proof (cases us)
      case Nil
      with n have "a = g'" "names r' = vs" by simp_all
      with g' have "c # cs = [] @ placeholder a @ r' \<and> names [] = us \<and> names r' = vs \<and> valid_name a"
        using Nil by simp
      then show ?thesis by blast
    next
      case (Cons u us')
      with n have u: "u = g'" and nr: "names r' = us' @ a # vs" by simp_all
      from "2.IH"(2)[OF t refl refl nr] obtain pre post where
        p: "r' = pre @ placeholder a @ post" "names pre = us'" "names post = vs" "valid_name a"
        by blast
      have "names (placeholder g' @ pre) = g' # names pre"
        using names_append_placeholder[OF g'(1), of "[]" pre] by simp
      with p g' u Cons have "c # cs = (placeholder g' @ pre) @ placeholder a @ post
          \<and> names (placeholder g' @ pre) = us \<and> names post = vs \<and> valid_name a"
        by simp
      then show ?thesis by blast
    qed
  qed
qed

lemma names_iff:
  "g \<in> set (names s) \<longleftrightarrow> valid_name g \<and> (\<exists>pre post. s = pre @ placeholder g @ post)"
proof
  assume "g \<in> set (names s)"
  then obtain us vs where "names s = us @ g # vs" by (auto dest: split_list)
  from names_split[OF this] show "valid_name g \<and> (\<exists>pre post. s = pre @ placeholder g @ post)"
    by blast
next
  assume "valid_name g \<and> (\<exists>pre post. s = pre @ placeholder g @ post)"
  then show "g \<in> set (names s)" by (auto simp: names_append_placeholder)
qed

subsection \<open>Insertion-ordered sets\<close>

lemma slice_placeholder: "slice (placeholder g) 2 (- 2) = g"
  by (simp add: slice_def placeholder_def Let_def)

lemma set_foldl_set_add: "set (foldl set_add acc xs) = set acc \<union> set xs"
  by (induction xs arbitrary: acc) (auto simp: set_add_def)

lemma distinct_foldl_set_add: "distinct acc \<Longrightarrow> distinct (foldl set_add acc xs)"
  by (induction xs arbitrary: acc) (auto simp: set_add_def)

lemma foldl_set_add_split:
  "foldl set_add [] zs = xs @ a # ys \<Longrightarrow>
   \<exists>us vs. zs = us @ a # vs \<and> a \<notin> set us \<and> foldl set_add [] us = xs"
proof (induction zs arbitrary: ys rule: rev_induct)
  case Nil
  then show ?case by simp
next
  case (snoc z zs)
  let ?k = "foldl set_add [] zs"
  show ?case
  proof (cases "z \<in> set ?k")
    case True
    have "set_add ?k z = ?k" using True by (simp add: set_add_def)
    with snoc.prems have "?k = xs @ a # ys" by simp
    from snoc.IH[OF this] obtain us vs where "zs = us @ a # vs" "a \<notin> set us" "foldl set_add [] us = xs"
      by blast
    then have "zs @ [z] = us @ a # (vs @ [z]) \<and> a \<notin> set us \<and> foldl set_add [] us = xs" by simp
    then show ?thesis by blast
  next
    case False
    have "set_add ?k z = ?k @ [z]" using False by (simp add: set_add_def)
    with snoc.prems have eq: "?k @ [z] = xs @ a # ys" by simp
    show ?thesis
    proof (cases ys rule: rev_cases)
      case Nil
      with eq have "?k = xs" "z = a" by simp_all
      moreover have "z \<notin> set zs" using False set_foldl_set_add[of "[]" zs] by simp
      ultimately have "zs @ [z] = zs @ a # [] \<and> a \<notin> set zs \<and> foldl set_add [] zs = xs" by simp
      then show ?thesis by blast
    next
      case (snoc ys' y)
      with eq have "?k = xs @ a # ys'" by simp
      from snoc.IH[OF this] obtain us vs where "zs = us @ a # vs" "a \<notin> set us" "foldl set_add [] us = xs"
        by blast
      then have "zs @ [z] = us @ a # (vs @ [z]) \<and> a \<notin> set us \<and> foldl set_add [] us = xs" by simp
      then show ?thesis by blast
    qed
  qed
qed

lemma match_names:
  assumes "\<And>m g. Match m g \<in> set ts \<Longrightarrow> m = placeholder g"
  shows "map (\<lambda>match. slice match 2 (- 2))
     (concat (map (\<lambda>t. case t of Text c \<Rightarrow> [] | Match m g \<Rightarrow> [m]) ts))
   = concat (map token_names ts)"
using assms proof (induction ts)
  case Nil
  show ?case by simp
next
  case (Cons t ts)
  have ih: "map (\<lambda>match. slice match 2 (- 2))
     (concat (map (\<lambda>t. case t of Text c \<Rightarrow> [] | Match m g \<Rightarrow> [m]) ts))
   = concat (map token_names ts)"
  proof (rule Cons.IH)
    fix m g assume "Match m g \<in> set ts"
    then have "Match m g \<in> set (t # ts)" by simp
    then show "m = placeholder g" by (rule Cons.prems)
  qed
  show ?case
  proof (cases t)
    case (Text c)
    with ih show ?thesis by simp
  next
    case (Match m g)
    then have "Match m g \<in> set (t # ts)" by simp
    then have "m = placeholder g" by (rule Cons.prems)
    with Match ih show ?thesis by (simp add: slice_placeholder)
  qed
qed

lemma match_or_empty: "(case string_match s of None \<Rightarrow> [] | Some ms \<Rightarrow> ms) =
   concat (map (\<lambda>t. case t of Text c \<Rightarrow> [] | Match m g \<Rightarrow> [m]) (scan s))"
  by (simp add: string_match_def Let_def)

lemma slice_matches: "map (\<lambda>match. slice match 2 (- 2)) (concat (map (\<lambda>t. case t of Text c \<Rightarrow> [] | Match m g \<Rightarrow> [m]) (scan s))) = names s"
  unfolding names_def
proof (rule match_names)
  fix m g assume "Match m g \<in> set (scan s)"
  then show "m = placeholder g" by (rule scan_Match[THEN conjunct1])
qed

lemma extractVariables_names: "extractVariables s = foldl set_add [] (names s)"
  unfolding extractVariables_def Let_def match_or_empty slice_matches ..

section \<open>Variable extraction\<close>

text \<open>
  Claim C7. \<open>extractVariables\<close> returns the names of the placeholders of the text, each
  exactly as it stands between the delimiters (no trimming), each once, in the order of
  their first occurrences; the empty text has none. The names are those \<open>g\<close>, not empty
  and free of braces, for which \<open>{{g}}\<close> occurs in the text. The order is stated by the
  last conjunct: the names listed before \<open>a\<close> are the names extracted from the text in
  front of an occurrence of \<open>{{a}}\<close> (its first one, as \<open>a\<close> is not among them).
\<close>

theorem extractVariables_spec:
  "extractVariables [] = [] \<and>
   distinct (extractVariables s) \<and>
   set (extractVariables s) =
     {g. g \<noteq> [] \<and> (\<forall>c\<in>set g. \<not> is_brace c) \<and> (\<exists>pre post. s = pre @ ''{{'' @ g @ ''}}'' @ post)} \<and>
   (\<forall>xs a ys. extractVariables s = xs @ a # ys \<longrightarrow>
      (\<exists>pre post. s = pre @ ''{{'' @ a @ ''}}'' @ post \<and> extractVariables pre = xs))"
proof (intro conjI allI impI)
  show "extractVariables [] = []"
    by (simp add: extractVariables_names)
  show "distinct (extractVariables s)"
    by (simp add: extractVariables_names distinct_foldl_set_add)
  show "set (extractVariables s) =
     {g. g \<noteq> [] \<and> (\<forall>c\<in>set g. \<not> is_brace c) \<and> (\<exists>pre post. s = pre @ ''{{'' @ g @ ''}}'' @ post)}"
  proof -
    have "set (extractVariables s) = set (names s)"
      by (simp add: extractVariables_names set_foldl_set_add)
    also have "\<dots> = {g. valid_name g \<and> (\<exists>pre post. s = pre @ placeholder g @ post)}"
      using names_iff by blast
    finally show ?thesis
      by (simp add: valid_name_def placeholder_def)
  qed
next
  fix xs a ys
  assume "extractVariables s = xs @ a # ys"
  then have "foldl set_add [] (names s) = xs @ a # ys"
    by (simp add: extractVariables_names)
  from foldl_set_add_split[OF this] obtain us vs where
    n: "names s = us @ a # vs" and xs: "foldl set_add [] us = xs"
    by blast
  from names_split[OF n] obtain pre post where
    "s = pre @ placeholder a @ post" "names pre = us"
    by blast
  with xs have "s = pre @ ''{{'' @ a @ ''}}'' @ post \<and> extractVariables pre = xs"
    by (simp add: extractVariables_names placeholder_def)
  then show "\<exists>pre post. s = pre @ ''{{'' @ a @ ''}}'' @ post \<and> extractVariables pre = xs"
    by blast
qed

theorem extractVariables_spec_witness:
  "extractVariables ''{{a}} {{ b }} {{a}}'' = [''a''] @ '' b '' # [] \<and>
   (\<exists>pre post. ''{{a}} {{ b }} {{a}}'' = pre @ ''{{'' @ '' b '' @ ''}}'' @ post \<and>
      extractVariables pre = [''a''])"
proof -
  have e: "extractVariables ''{{a}} {{ b }} {{a}}'' = [''a''] @ '' b '' # []"
    by code_simp
  from extractVariables_spec[of "''{{a}} {{ b }} {{a}}''"]
  have "\<forall>xs a ys. extractVariables ''{{a}} {{ b }} {{a}}'' = xs @ a # ys \<longrightarrow>
      (\<exists>pre post. ''{{a}} {{ b }} {{a}}'' = pre @ ''{{'' @ a @ ''}}'' @ post \<and> extractVariables pre = xs)"
    by (elim conjE)
  then have "extractVariables ''{{a}} {{ b }} {{a}}'' = [''a''] @ '' b '' # [] \<longrightarrow>
      (\<exists>pre post. ''{{a}} {{ b }} {{a}}'' = pre @ ''{{'' @ '' b '' @ ''}}'' @ post \<and> extractVariables pre = [''a''])"
    by (elim allE)
  with e show ?thesis by (intro conjI) (rule e, rule mp)
qed

section \<open>Substitution\<close>

lemma scan_Match_extracted:
  assumes "Match m g \<in> set (scan s)"
  shows "g \<in> set (extractVariables s)"
proof -
  from assms have "g \<in> set (token_names (Match m g))" "Match m g \<in> set (scan s)" by simp_all
  then have "g \<in> set (names s)" unfolding names_def by (auto simp del: token_names.simps)
  then show ?thesis by (simp add: extractVariables_names set_foldl_set_add)
qed

lemma exec_at_no_open: "c \<noteq> CHR ''{'' \<Longrightarrow> exec_at (c # cs) = None"
  by (cases cs) simp_all

lemma scan_no_brace: "CHR ''{'' \<notin> set s \<Longrightarrow> scan s = map Text s"
proof (induction s)
  case Nil
  show ?case by simp
next
  case (Cons c cs)
  then have "c \<noteq> CHR ''{''" by auto
  then have "exec_at (c # cs) = None" by (rule exec_at_no_open)
  with Cons show ?case by (simp add: scan_Cons_None)
qed

lemma string_match_no_brace:
  assumes "\<forall>c\<in>set s. \<not> is_brace c"
  shows "string_match s = None"
proof -
  from assms have "CHR ''{'' \<notin> set s" by (auto simp: is_brace_def)
  then have "scan s = map Text s" by (rule scan_no_brace)
  then show ?thesis by (simp add: string_match_def Let_def)
qed

text \<open>
  Claim C1, as amended. Let \<open>V\<close> give a value that is not empty for the trimmed form of
  every name of \<open>extractVariables t\<close>. Then \<open>replaceVariables t V\<close> replaces every
  placeholder of \<open>t\<close> by its value, in one pass: the result is the text of \<open>t\<close> outside the
  placeholders with the values in their places. If, moreover, neither these values nor the
  text of \<open>t\<close> outside its placeholders contain a brace, the result contains no placeholder
  (the pattern matches nowhere in it).
\<close>

theorem replaceVariables_complete:
  assumes "\<forall>n\<in>set (extractVariables t). V (trim n) \<noteq> None \<and> V (trim n) \<noteq> Some []"
  shows "replaceVariables t V =
           concat (map (\<lambda>tok. case tok of Text c \<Rightarrow> [c] | Match m g \<Rightarrow> the (V (trim g))) (scan t))
         \<and> ((\<forall>n\<in>set (extractVariables t). \<forall>c\<in>set (the (V (trim n))). \<not> is_brace c)
              \<and> (\<forall>c\<in>set (literal_text t). \<not> is_brace c)
            \<longrightarrow> string_match (replaceVariables t V) = None)"
proof (intro conjI impI)
  let ?f = "\<lambda>match variable. case get_property V (trim variable) of None \<Rightarrow> match
              | Some v \<Rightarrow> if v = [] then match else v"
  let ?r = "\<lambda>tok. case tok of Text c \<Rightarrow> [c] | Match m g \<Rightarrow> the (V (trim g))"
  have tok: "(case tok of Text c \<Rightarrow> [c] | Match m g \<Rightarrow> ?f m g) = ?r tok"
    if "tok \<in> set (scan t)" for tok
  proof (cases tok)
    case (Text c)
    then show ?thesis by simp
  next
    case (Match m g)
    with that have "g \<in> set (extractVariables t)" by (auto intro: scan_Match_extracted)
    with assms obtain v where "V (trim g) = Some v" "v \<noteq> []" by auto
    with Match show ?thesis by (simp add: get_property_def)
  qed
  have meq: "map (\<lambda>tok. case tok of Text c \<Rightarrow> [c] | Match m g \<Rightarrow> ?f m g) (scan t) = map ?r (scan t)"
    by (rule map_cong[OF refl]) (rule tok)
  show eq: "replaceVariables t V = concat (map ?r (scan t))"
    unfolding replaceVariables_def string_replace_def meq ..
  assume h: "(\<forall>n\<in>set (extractVariables t). \<forall>c\<in>set (the (V (trim n))). \<not> is_brace c)
              \<and> (\<forall>c\<in>set (literal_text t). \<not> is_brace c)"
  have "\<forall>c\<in>set (?r tok). \<not> is_brace c" if "tok \<in> set (scan t)" for tok
  proof (cases tok)
    case (Text c)
    with that have "c \<in> set (literal_text t)"
      unfolding literal_text_def by force
    with h Text show ?thesis by simp
  next
    case (Match m g)
    with that have "g \<in> set (extractVariables t)" by (auto intro: scan_Match_extracted)
    with h Match show ?thesis by simp
  qed
  then have "\<forall>c\<in>set (replaceVariables t V). \<not> is_brace c"
    unfolding eq by auto
  then show "string_match (replaceVariables t V) = None"
    by (rule string_match_no_brace)
qed

theorem replaceVariables_complete_witness:
  "extractVariables ''Hello {{name}}!'' = [''name'']
   \<and> [''name'' \<mapsto> ''Ana''] (trim ''name'') = Some ''Ana''
   \<and> replaceVariables ''Hello {{name}}!'' [''name'' \<mapsto> ''Ana''] = ''Hello Ana!''
   \<and> string_match (replaceVariables ''Hello {{name}}!'' [''name'' \<mapsto> ''Ana'']) = None"
proof -
  have a: "\<forall>n\<in>set (extractVariables ''Hello {{name}}!'').
      [''name'' \<mapsto> ''Ana''] (trim n) \<noteq> None \<and> [''name'' \<mapsto> ''Ana''] (trim n) \<noteq> Some []"
    by code_simp
  have b: "\<forall>n\<in>set (extractVariables ''Hello {{name}}!'').
      \<forall>c\<in>set (the ([''name'' \<mapsto> ''Ana''] (trim n))). \<not> is_brace c"
    by code_simp
  have c: "\<forall>c\<in>set (literal_text ''Hello {{name}}!''). \<not> is_brace c"
    by code_simp
  have d: "concat (map (\<lambda>tok. case tok of Text c \<Rightarrow> [c]
              | Match m g \<Rightarrow> the ([''name'' \<mapsto> ''Ana''] (trim g))) (scan ''Hello {{name}}!''))
           = ''Hello Ana!''"
    by code_simp
  from replaceVariables_complete[OF a] b c
  have e: "replaceVariables ''Hello {{name}}!'' [''name'' \<mapsto> ''Ana''] =
          concat (map (\<lambda>tok. case tok of Text c \<Rightarrow> [c]
              | Match m g \<Rightarrow> the ([''name'' \<mapsto> ''Ana''] (trim g))) (scan ''Hello {{name}}!''))"
    and n: "string_match (replaceVariables ''Hello {{name}}!'' [''name'' \<mapsto> ''Ana'']) = None"
    by blast+
  from e d have "replaceVariables ''Hello {{name}}!'' [''name'' \<mapsto> ''Ana''] = ''Hello Ana!''"
    by (rule trans)
  moreover have "extractVariables ''Hello {{name}}!'' = [''name'']" by code_simp
  moreover have "[''name'' \<mapsto> ''Ana''] (trim ''name'') = Some ''Ana''" by code_simp
  ultimately show ?thesis using n by blast
qed

text \<open>
  The claim as stated fails: substitution is a single pass and a value is not scanned
  again, so a value that itself contains a placeholder leaves one in the result, although
  the map has a value for every extracted name.
\<close>

theorem replaceVariables_leaves_placeholder:
  "extractVariables ''Hi {{a}}'' = [''a'']
   \<and> [''a'' \<mapsto> ''{{b}}''] ''a'' = Some ''{{b}}''
   \<and> replaceVariables ''Hi {{a}}'' [''a'' \<mapsto> ''{{b}}''] = ''Hi {{b}}''
   \<and> string_match (replaceVariables ''Hi {{a}}'' [''a'' \<mapsto> ''{{b}}'']) = Some [''{{b}}'']"
  by code_simp

section \<open>Identifiers that are blank\<close>

lemma trim_white_space:
  assumes "\<forall>c\<in>set s. is_white_space c"
  shows "trim s = []"
proof -
  from assms have d: "dropWhile is_white_space s = []" by simp
  show ?thesis unfolding trim_def d by simp
qed

text \<open>
  Claim C10. When the id is empty or consists of white space only, \<open>getPrompt\<close>,
  \<open>deletePrompt\<close>, \<open>updatePrompt\<close> and \<open>applyPrompt\<close> throw the \<open>ValidationError\<close>
  ``Prompt ID is required'', not a \<open>NotFoundError\<close>, and leave the file system as it
  was, its log of operations included: nothing was read or written.
\<close>

theorem blank_id_rejected:
  assumes "\<forall>c\<in>set pid. is_white_space c"
  shows "getPrompt s pid = (Inl (ValidationError ''Prompt ID is required''), s)
       \<and> deletePrompt s pid = (Inl (ValidationError ''Prompt ID is required''), s)
       \<and> updatePrompt s now pid pname pdescription pmessages
           = (Inl (ValidationError ''Prompt ID is required''), s)
       \<and> applyPrompt s stringify pid pvariables
           = (Inl (ValidationError ''Prompt ID is required''), s)"
proof -
  from assms have "blank pid" by (simp add: blank_def trim_white_space)
  then show ?thesis
    by (simp add: getPrompt_def deletePrompt_def updatePrompt_def applyPrompt_def)
qed

theorem blank_id_rejected_witness:
  "getPrompt empty_fs ''  '' = (Inl (ValidationError ''Prompt ID is required''), empty_fs)
   \<and> deletePrompt empty_fs ''  '' = (Inl (ValidationError ''Prompt ID is required''), empty_fs)
   \<and> updatePrompt empty_fs ''T1'' ''  '' (Some ''n'') None None
       = (Inl (ValidationError ''Prompt ID is required''), empty_fs)
   \<and> applyPrompt empty_fs (\<lambda>ms. []) ''  '' (Some Map.empty)
       = (Inl (ValidationError ''Prompt ID is required''), empty_fs)"
proof -
  have "\<forall>c\<in>set ''  ''. is_white_space c" by (simp add: is_white_space_def)
  then show ?thesis by (rule blank_id_rejected)
qed

section \<open>Stored entities\<close>

lemma getPrompt_found:
  assumes "\<not> blank pid" and "fst (readJSONFile s (pid @ ''.json'')) = Inr found"
  shows "getPrompt s pid = (Inr found, performed s (ReadFile (pid @ ''.json'')))"
proof -
  have "snd (readJSONFile s (pid @ ''.json'')) = performed s (ReadFile (pid @ ''.json''))"
    by (simp add: readJSONFile_def)
  with assms(2) have "readJSONFile s (pid @ ''.json'')
      = (Inr found, performed s (ReadFile (pid @ ''.json'')))"
    by (simp add: prod_eq_iff)
  with assms(1) show ?thesis by (simp add: getPrompt_def)
qed

lemma blank_prompt_1: "\<not> blank ''prompt-1''"
  by (simp add: blank_def trim_def is_white_space_def)

lemma blank_prompt_2: "\<not> blank ''prompt-2''"
  by (simp add: blank_def trim_def is_white_space_def)

lemma read_prompt_1: "fst (readJSONFile sample_fs (''prompt-1'' @ ''.json'')) = Inr greeting"
  by (simp add: readJSONFile_def sample_fs_def no_faults_def)

lemma read_prompt_2: "fst (readJSONFile sample_fs (''prompt-2'' @ ''.json'')) = Inr chat"
  by (simp add: readJSONFile_def sample_fs_def no_faults_def)

section \<open>Applying a prompt\<close>

text \<open>
  What \<open>applyPrompt\<close> does for the entity stored under a (non-blank) id: it throws a
  \<open>ValidationError\<close> exactly when some name of the entity's \<open>variables\<close> is neither a key
  of the map nor a property of \<open>Object.prototype\<close>, and the message lists these names in
  the order of \<open>variables\<close>, joined by a comma and a space.
\<close>

lemma applyPrompt_missing_properties:
  assumes "\<not> blank pid" and "fst (readJSONFile s (pid @ ''.json'')) = Inr found"
  shows "((\<exists>n\<in>set (variables found). \<not> has_property vars n) \<longrightarrow>
            fst (applyPrompt s stringify pid (Some vars)) =
              Inl (ValidationError (''Missing required variables: '' @
                     join (filter (\<lambda>n. \<not> has_property vars n) (variables found)) '', '')))
       \<and> ((\<exists>msg. fst (applyPrompt s stringify pid (Some vars)) = Inl (ValidationError msg))
            \<longleftrightarrow> (\<exists>n\<in>set (variables found). \<not> has_property vars n))"
proof -
  let ?missing = "filter (\<lambda>n. \<not> has_property vars n) (variables found)"
  have m: "?missing \<noteq> [] \<longleftrightarrow> (\<exists>n\<in>set (variables found). \<not> has_property vars n)"
    by (simp add: filter_empty_conv)
  have g: "getPrompt s pid = (Inr found, performed s (ReadFile (pid @ ''.json'')))"
    using assms by (rule getPrompt_found)
  have a: "fst (applyPrompt s stringify pid (Some vars)) =
      Inl (ValidationError (''Missing required variables: '' @ join ?missing '', ''))"
    if "?missing \<noteq> []"
    using that assms(1) g by (simp add: applyPrompt_def Let_def)
  have b: "fst (applyPrompt s stringify pid (Some vars)) \<noteq> Inl (ValidationError msg)"
    if "?missing = []" for msg
    using that assms(1) g
    by (simp add: applyPrompt_def Let_def split: option.split)
  from a b m show ?thesis by (cases "?missing = []") auto
qed

text \<open>
  Claim C5 does not hold of \<open>applyPrompt\<close>: a name of the entity's \<open>variables\<close> that is
  absent as a key of the map is not reported when \<open>Object.prototype\<close> has a property of
  that name, since \<open>in\<close> finds it there. The prompt added with the content
  \<open>Say {{toString}}\<close> has the variable \<open>toString\<close>; applied with the empty map, no
  \<open>ValidationError\<close> is thrown, and the placeholder is replaced by the text of the
  inherited function.
\<close>

theorem applyPrompt_accepts_inherited_name:
  "fst (addPrompt empty_fs ''3f2a9c1e-7b4d'' ''T0'' ''Say'' ''Say {{toString}}'' None) =
     Inr \<lparr>id' = ''prompt-3f2a9c1e'', name = ''Say'', description = Some [],
          variables = [''toString''], createdAt = ''T0'', updatedAt = Some ''T0'',
          content = Some ''Say {{toString}}'', version = None, messages = None\<rparr>
   \<and> (Map.empty :: string \<rightharpoonup> string) ''toString'' = None
   \<and> fst (applyPrompt
            (snd (addPrompt empty_fs ''3f2a9c1e-7b4d'' ''T0'' ''Say'' ''Say {{toString}}'' None))
            (\<lambda>ms. []) ''prompt-3f2a9c1e'' (Some Map.empty)) =
       Inr \<lparr>result = ''Say function toString() { [native code] }'', messages' = None\<rparr>"
  by code_simp





section \<open>Listing\<close>

text \<open>
  What reading a file gives does not depend on the log of operations.
\<close>

lemma same_store_read:
  "same_store s t \<Longrightarrow> fst (readJSONFile s f) = fst (readJSONFile t f)"
  by (simp add: same_store_def readJSONFile_def split: option.split)

lemma same_store_after_read: "same_store (snd (readJSONFile s f)) s"
  by (simp add: same_store_def readJSONFile_def performed_def)

lemma same_store_trans: "same_store s t \<Longrightarrow> same_store t u \<Longrightarrow> same_store s u"
  by (simp add: same_store_def)

lemma readAll_result:
  "same_store s t \<Longrightarrow>
   fst (readAll s fnames prompts) =
     prompts @ concat (map (\<lambda>f. case fst (readJSONFile t f) of Inl e \<Rightarrow> [] | Inr found \<Rightarrow> [found])
                        fnames)"
proof (induction fnames arbitrary: s prompts)
  case Nil
  show ?case by simp
next
  case (Cons f fnames)
  have next_store: "same_store (snd (readJSONFile s f)) t"
    using same_store_after_read Cons.prems by (rule same_store_trans)
  have here: "fst (readJSONFile s f) = fst (readJSONFile t f)"
    using Cons.prems by (rule same_store_read)
  show ?case
  proof (cases "fst (readJSONFile t f)")
    case (Inl e)
    with here have "readAll s (f # fnames) prompts = readAll (snd (readJSONFile s f)) fnames prompts"
      by (simp add: split_beta)
    with Cons.IH[OF next_store] Inl show ?thesis by simp
  next
    case (Inr found)
    with here have "readAll s (f # fnames) prompts
        = readAll (snd (readJSONFile s f)) fnames (prompts @ [found])"
      by (simp add: split_beta)
    with Cons.IH[OF next_store] Inr show ?thesis by simp
  qed
qed

text \<open>
  Claim C8. Whenever the directory can be enumerated, \<open>listPrompts\<close> succeeds, whatever
  the files hold: it returns, in the order of enumeration, the entities of exactly those
  \<open>.json\<close> files that \<open>readJSONFile\<close> reads, and skips each of the others on its own.
\<close>

theorem listPrompts_skips_unreadable:
  assumes "fault s Readdir = None"
  shows "fst (listPrompts s) =
     Inr (concat (map (\<lambda>f. case fst (readJSONFile s f) of Inl e \<Rightarrow> [] | Inr found \<Rightarrow> [found])
                    (filter (\<lambda>f. endsWith f ''.json'') (map fst (files s)))))"
proof -
  let ?names = "filter (\<lambda>f. endsWith f ''.json'') (map fst (files s))"
  have l: "listFiles s ''.json'' = (Inr ?names, performed s Readdir)"
    using assms by (simp add: listFiles_def)
  have "same_store (performed s Readdir) s"
    by (simp add: same_store_def performed_def)
  then have "fst (readAll (performed s Readdir) ?names []) =
      [] @ concat (map (\<lambda>f. case fst (readJSONFile s f) of Inl e \<Rightarrow> [] | Inr found \<Rightarrow> [found]) ?names)"
    by (rule readAll_result)
  with l show ?thesis by (simp add: listPrompts_def split_beta)
qed

theorem listPrompts_skips_unreadable_witness:
  "fault sample_fs Readdir = None
   \<and> fst (readJSONFile sample_fs ''prompt-3.json'')
       = Inl (Error ''Failed to read file: Unexpected end of JSON input'')
   \<and> fst (listPrompts sample_fs) = Inr [greeting, chat]"
proof -
  have f: "fault sample_fs Readdir = None" by (simp add: sample_fs_def no_faults_def)
  have r: "fst (readJSONFile sample_fs ''prompt-3.json'')
       = Inl (Error ''Failed to read file: Unexpected end of JSON input'')"
    by (simp add: readJSONFile_def sample_fs_def no_faults_def)
  have "concat (map (\<lambda>f. case fst (readJSONFile sample_fs f) of Inl e \<Rightarrow> [] | Inr found \<Rightarrow> [found])
                    (filter (\<lambda>f. endsWith f ''.json'') (map fst (files sample_fs))))
        = [greeting, chat]"
    by (simp add: readJSONFile_def sample_fs_def no_faults_def endsWith_def)
  with listPrompts_skips_unreadable[OF f] have "fst (listPrompts sample_fs) = Inr [greeting, chat]"
    by simp
  with f r show ?thesis by simp
qed

section \<open>Creating and updating\<close>

lemma fault_performed: "fault (performed s op) = fault s"
  by (simp add: performed_def)

lemma map_of_write_entry: "map_of (write_entry p f es) p = Some f"
  by (induction es) auto

lemma read_fault_free:
  assumes "fst (readJSONFile s f) = Inr found"
  shows "fault s (ReadFile f) = None"
proof (cases "fault s (ReadFile f)")
  case None
  then show ?thesis .
next
  case (Some msg)
  with assms show ?thesis by (simp add: readJSONFile_def)
qed

lemma read_after_write:
  assumes "fault s (ReadFile f) = None" and "fault s (WriteFile f) = None"
  shows "writeJSONFile s f new
           = (Inr (), (performed s (WriteFile f))\<lparr>files := write_entry f (Json new) (files s)\<rparr>)
       \<and> fst (readJSONFile (snd (writeJSONFile s f new)) f) = Inr new"
  using assms
  by (simp add: writeJSONFile_def readJSONFile_def map_of_write_entry fault_performed)

text \<open>
  \<open>updatePrompt\<close> on a stored entity, once its two guards are passed: the updated prompt
  is written, and returned when the write succeeds.
\<close>

lemma updatePrompt_found:
  assumes "\<not> blank pid" and "fst (readJSONFile s (pid @ ''.json'')) = Inr existing"
    and "\<not> (falsy pname \<and> falsy pdescription \<and> pmessages = None)"
  shows "updatePrompt s now pid pname pdescription pmessages =
     (case writeJSONFile (performed s (ReadFile (pid @ ''.json''))) (pid @ ''.json'')
             (updatedPrompt existing now pname pdescription pmessages) of
        (Inl e, s'') \<Rightarrow> (Inl (rethrow pid e), s'')
      | (Inr u, s'') \<Rightarrow>
          (Inr \<lparr>success = True,
                message = ''Prompt '' @ pid @ '' updated successfully'',
                prompt = updatedPrompt existing now pname pdescription pmessages\<rparr>, s''))"
proof -
  have "getPrompt s pid = (Inr existing, performed s (ReadFile (pid @ ''.json'')))"
    using assms(1,2) by (rule getPrompt_found)
  then show ?thesis by (simp add: updatePrompt_def Let_def assms(1,3))
qed

lemma updatePrompt_written:
  assumes "\<not> blank pid" and "fst (readJSONFile s (pid @ ''.json'')) = Inr existing"
    and "\<not> (falsy pname \<and> falsy pdescription \<and> pmessages = None)"
    and "fault s (WriteFile (pid @ ''.json'')) = None"
  shows "\<exists>s'. updatePrompt s now pid pname pdescription pmessages =
           (Inr \<lparr>success = True,
                 message = ''Prompt '' @ pid @ '' updated successfully'',
                 prompt = updatedPrompt existing now pname pdescription pmessages\<rparr>, s')
         \<and> fst (readJSONFile s' (pid @ ''.json''))
             = Inr (updatedPrompt existing now pname pdescription pmessages)"
proof -
  let ?s = "performed s (ReadFile (pid @ ''.json''))"
  let ?new = "updatedPrompt existing now pname pdescription pmessages"
  have "fault ?s (ReadFile (pid @ ''.json'')) = None"
    using assms(2) by (simp add: fault_performed read_fault_free)
  moreover have "fault ?s (WriteFile (pid @ ''.json'')) = None"
    using assms(4) by (simp add: fault_performed)
  ultimately have w: "writeJSONFile ?s (pid @ ''.json'') ?new
           = (Inr (), (performed ?s (WriteFile (pid @ ''.json'')))
                        \<lparr>files := write_entry (pid @ ''.json'') (Json ?new) (files ?s)\<rparr>)
       \<and> fst (readJSONFile (snd (writeJSONFile ?s (pid @ ''.json'') ?new)) (pid @ ''.json'')) = Inr ?new"
    by (rule read_after_write)
  have "updatePrompt s now pid pname pdescription pmessages =
           (Inr \<lparr>success = True,
                 message = ''Prompt '' @ pid @ '' updated successfully'',
                 prompt = ?new\<rparr>, snd (writeJSONFile ?s (pid @ ''.json'') ?new))"
    unfolding updatePrompt_found[OF assms(1,2,3)] using w by simp
  with w show ?thesis by blast
qed

lemma updatePrompt_result:
  assumes "updatePrompt s now pid pname pdescription pmessages = (Inr r, s')"
  shows "\<exists>existing. prompt r = updatedPrompt existing now pname pdescription pmessages"
  using assms
  by (auto simp: updatePrompt_def Let_def split: if_splits prod.splits sum.splits)

lemma updatedAt_updatedPrompt:
  "updatedAt (updatedPrompt existing now pname pdescription pmessages) = Some now"
  by (simp add: updatedPrompt_def Let_def split: option.split)

lemma updatedPrompt_convert:
  assumes "\<not> isMultiMessagePrompt existing"
  shows "updatedPrompt existing now pname pdescription (Some ms) =
     \<lparr>id' = id' existing,
      name = (case pname of
                Some n \<Rightarrow> if trim n \<noteq> [] then trim n else name existing
              | None \<Rightarrow> name existing),
      description = (case pdescription of
                       Some d \<Rightarrow> Some (trim d)
                     | None \<Rightarrow> description existing),
      variables = extractVariablesFromMessages ms,
      createdAt = createdAt existing,
      updatedAt = Some now,
      content = None,
      version = Some ''2.0'',
      messages = Some ms\<rparr>"
  using assms by (simp add: updatedPrompt_def)

lemma updatedPrompt_keeps_multi:
  assumes "isMultiMessagePrompt existing"
  shows "isMultiMessagePrompt (updatedPrompt existing now pname pdescription pmessages)
       \<and> content (updatedPrompt existing now pname pdescription pmessages) = content existing"
  using assms
  by (simp add: updatedPrompt_def isMultiMessagePrompt_def Let_def split: option.split)

subsection \<open>The variables of a list of messages\<close>

lemma foldl_foldl_set_add:
  "foldl (\<lambda>vars m. foldl set_add vars (f m)) acc ms = foldl set_add acc (concat (map f ms))"
  by (induction ms arbitrary: acc) simp_all

lemma extractVariables_Nil: "extractVariables [] = []"
  by (simp add: extractVariables_names)

lemma set_extractVariables:
  "set (extractVariables t) =
     {g. g \<noteq> [] \<and> (\<forall>c\<in>set g. \<not> is_brace c) \<and> (\<exists>pre post. t = pre @ ''{{'' @ g @ ''}}'' @ post)}"
proof -
  have "set (extractVariables t) = set (names t)"
    by (simp add: extractVariables_names set_foldl_set_add)
  also have "\<dots> = {g. valid_name g \<and> (\<exists>pre post. t = pre @ placeholder g @ post)}"
    using names_iff by blast
  finally show ?thesis
    by (simp add: valid_name_def placeholder_def)
qed

text \<open>
  \<open>extractVariablesFromMessages\<close> collects, in the order of the messages, the variables of
  the texts of the messages of type \<open>text\<close>, each name once, at its first occurrence: the
  names are those of the placeholders that occur in these texts.
\<close>

lemma extractVariablesFromMessages_concat:
  "extractVariablesFromMessages ms =
     foldl set_add [] (concat (map (\<lambda>m. case text' (content' m) of
                           Some t \<Rightarrow> if type (content' m) = ''text'' then extractVariables t else []
                         | None \<Rightarrow> []) ms))"
proof -
  let ?f = "(\<lambda>m. case text' (content' m) of
                           Some t \<Rightarrow> if type (content' m) = ''text'' then extractVariables t else []
                         | None \<Rightarrow> [])"
  have "(case text' (content' m) of
           Some t \<Rightarrow>
             if type (content' m) = ''text'' \<and> t \<noteq> []
             then foldl set_add vars (extractVariables t)
             else vars
         | None \<Rightarrow> vars) = foldl set_add vars (?f m)" for vars m
    by (cases "text' (content' m)") (auto simp: extractVariables_Nil)
  then have "(\<lambda>vars m. case text' (content' m) of
           Some t \<Rightarrow>
             if type (content' m) = ''text'' \<and> t \<noteq> []
             then foldl set_add vars (extractVariables t)
             else vars
         | None \<Rightarrow> vars) = (\<lambda>vars m. foldl set_add vars (?f m))"
    by (intro ext)
  then have "extractVariablesFromMessages ms = foldl (\<lambda>vars m. foldl set_add vars (?f m)) [] ms"
    unfolding extractVariablesFromMessages_def by (rule arg_cong)
  then show ?thesis unfolding foldl_foldl_set_add .
qed

lemma distinct_extractVariablesFromMessages: "distinct (extractVariablesFromMessages ms)"
  unfolding extractVariablesFromMessages_concat by (rule distinct_foldl_set_add) simp

lemma set_extractVariablesFromMessages:
  "set (extractVariablesFromMessages ms) =
     {g. g \<noteq> [] \<and> (\<forall>c\<in>set g. \<not> is_brace c)
                     \<and> (\<exists>m\<in>set ms. type (content' m) = ''text''
                           \<and> (\<exists>pre post. text' (content' m) = Some (pre @ ''{{'' @ g @ ''}}'' @ post)))}"
proof -
  have "set (extractVariablesFromMessages ms) =
      (\<Union>m\<in>set ms. set (case text' (content' m) of
                           Some t \<Rightarrow> if type (content' m) = ''text'' then extractVariables t else []
                         | None \<Rightarrow> []))"
    unfolding extractVariablesFromMessages_concat set_foldl_set_add by simp
  also have "\<dots> = {g. \<exists>m\<in>set ms. type (content' m) = ''text''
                     \<and> (\<exists>t. text' (content' m) = Some t \<and> g \<in> set (extractVariables t))}"
    by (force split: option.splits if_splits)
  also have "\<dots> = {g. g \<noteq> [] \<and> (\<forall>c\<in>set g. \<not> is_brace c)
                     \<and> (\<exists>m\<in>set ms. type (content' m) = ''text''
                           \<and> (\<exists>pre post. text' (content' m) = Some (pre @ ''{{'' @ g @ ''}}'' @ post)))}"
    unfolding set_extractVariables by auto
  finally show ?thesis .
qed

subsection \<open>Conversion\<close>

text \<open>
  Claim C6. Let an entity be stored under a (non-blank) id. If it is a single-content
  entity and the write succeeds, \<open>updatePrompt\<close> with messages returns an entity, and
  stores it under the id, that has the discriminator \<open>version = '2.0'\<close> and no \<open>content\<close>,
  the \<open>id\<close> and \<open>createdAt\<close> of the existing one, the supplied messages, and variables
  computed anew from them: the names extracted from the texts of the messages of type
  \<open>text\<close>, in the order of the messages, each once, at its first occurrence; they are the
  names of the placeholders that occur in these texts. If the stored entity is a
  multi-message entity, whatever \<open>updatePrompt\<close> returns is a multi-message entity again,
  with the \<open>content\<close> field as it was (absent).
\<close>

theorem update_converts_single_content:
  assumes "\<not> blank pid" and "fst (readJSONFile s (pid @ ''.json'')) = Inr existing"
  shows "(\<not> isMultiMessagePrompt existing \<and> fault s (WriteFile (pid @ ''.json'')) = None \<longrightarrow>
           (\<exists>r s'. updatePrompt s now pid pname pdescription (Some ms) = (Inr r, s')
              \<and> fst (readJSONFile s' (pid @ ''.json'')) = Inr (prompt r)
              \<and> isMultiMessagePrompt (prompt r) \<and> version (prompt r) = Some ''2.0''
              \<and> content (prompt r) = None \<and> \<not> isSingleContentPrompt (prompt r)
              \<and> id' (prompt r) = id' existing \<and> createdAt (prompt r) = createdAt existing
              \<and> messages (prompt r) = Some ms
              \<and> variables (prompt r) = extractVariablesFromMessages ms
              \<and> variables (prompt r) =
                  foldl set_add [] (concat (map (\<lambda>m. case text' (content' m) of
                           Some t \<Rightarrow> if type (content' m) = ''text'' then extractVariables t else []
                         | None \<Rightarrow> []) ms))
              \<and> distinct (variables (prompt r))
              \<and> set (variables (prompt r)) =
                  {g. g \<noteq> [] \<and> (\<forall>c\<in>set g. \<not> is_brace c)
                     \<and> (\<exists>m\<in>set ms. type (content' m) = ''text''
                           \<and> (\<exists>pre post. text' (content' m) = Some (pre @ ''{{'' @ g @ ''}}'' @ post)))}))
       \<and> (isMultiMessagePrompt existing \<longrightarrow>
           (\<forall>r s'. updatePrompt s now pid pname pdescription pmessages = (Inr r, s') \<longrightarrow>
              isMultiMessagePrompt (prompt r) \<and> content (prompt r) = content existing))"
proof (intro conjI impI allI)
  assume a: "\<not> isMultiMessagePrompt existing \<and> fault s (WriteFile (pid @ ''.json'')) = None"
  let ?new = "updatedPrompt existing now pname pdescription (Some ms)"
  let ?Q = "\<lambda>p. isMultiMessagePrompt p \<and> version p = Some ''2.0''
              \<and> content p = None \<and> \<not> isSingleContentPrompt p
              \<and> id' p = id' existing \<and> createdAt p = createdAt existing
              \<and> messages p = Some ms
              \<and> variables p = extractVariablesFromMessages ms
              \<and> variables p =
                  foldl set_add [] (concat (map (\<lambda>m. case text' (content' m) of
                           Some t \<Rightarrow> if type (content' m) = ''text'' then extractVariables t else []
                         | None \<Rightarrow> []) ms))
              \<and> distinct (variables p)
              \<and> set (variables p) =
                  {g. g \<noteq> [] \<and> (\<forall>c\<in>set g. \<not> is_brace c)
                     \<and> (\<exists>m\<in>set ms. type (content' m) = ''text''
                           \<and> (\<exists>pre post. text' (content' m) = Some (pre @ ''{{'' @ g @ ''}}'' @ post)))}"
  have "\<not> (falsy pname \<and> falsy pdescription \<and> Some ms = None)" by simp
  from updatePrompt_written[OF assms this] a obtain s' where
    u: "updatePrompt s now pid pname pdescription (Some ms) =
           (Inr \<lparr>success = True,
                 message = ''Prompt '' @ pid @ '' updated successfully'',
                 prompt = ?new\<rparr>, s')"
    and p: "fst (readJSONFile s' (pid @ ''.json'')) = Inr ?new"
    by blast
  from a have c: "isMultiMessagePrompt ?new \<and> version ?new = Some ''2.0''
      \<and> content ?new = None \<and> \<not> isSingleContentPrompt ?new
      \<and> id' ?new = id' existing \<and> createdAt ?new = createdAt existing
      \<and> messages ?new = Some ms \<and> variables ?new = extractVariablesFromMessages ms"
    by (simp add: updatedPrompt_convert isMultiMessagePrompt_def isSingleContentPrompt_def)
  then have v: "variables ?new = extractVariablesFromMessages ms" by blast
  have q: "?Q ?new"
    using c extractVariablesFromMessages_concat[of ms]
      distinct_extractVariablesFromMessages[of ms] set_extractVariablesFromMessages[of ms]
    unfolding v by blast
  let ?r = "\<lparr>success = True, message = ''Prompt '' @ pid @ '' updated successfully'',
             prompt = ?new\<rparr>"
  have pr: "prompt ?r = ?new" by simp
  have "updatePrompt s now pid pname pdescription (Some ms) = (Inr ?r, s')
              \<and> fst (readJSONFile s' (pid @ ''.json'')) = Inr (prompt ?r) \<and> ?Q (prompt ?r)"
    unfolding pr by (rule conjI[OF u conjI[OF p q]])
  then have "\<exists>r s'. updatePrompt s now pid pname pdescription (Some ms) = (Inr r, s')
              \<and> fst (readJSONFile s' (pid @ ''.json'')) = Inr (prompt r) \<and> ?Q (prompt r)"
    by blast
  then show "\<exists>r s'. updatePrompt s now pid pname pdescription (Some ms) = (Inr r, s')
              \<and> fst (readJSONFile s' (pid @ ''.json'')) = Inr (prompt r)
              \<and> isMultiMessagePrompt (prompt r) \<and> version (prompt r) = Some ''2.0''
              \<and> content (prompt r) = None \<and> \<not> isSingleContentPrompt (prompt r)
              \<and> id' (prompt r) = id' existing \<and> createdAt (prompt r) = createdAt existing
              \<and> messages (prompt r) = Some ms
              \<and> variables (prompt r) = extractVariablesFromMessages ms
              \<and> variables (prompt r) =
                  foldl set_add [] (concat (map (\<lambda>m. case text' (content' m) of
                           Some t \<Rightarrow> if type (content' m) = ''text'' then extractVariables t else []
                         | None \<Rightarrow> []) ms))
              \<and> distinct (variables (prompt r))
              \<and> set (variables (prompt r)) =
                  {g. g \<noteq> [] \<and> (\<forall>c\<in>set g. \<not> is_brace c)
                     \<and> (\<exists>m\<in>set ms. type (content' m) = ''text''
                           \<and> (\<exists>pre post. text' (content' m) = Some (pre @ ''{{'' @ g @ ''}}'' @ post)))}"
    .
next
  fix r s'
  assume m: "isMultiMessagePrompt existing"
    and u: "updatePrompt s now pid pname pdescription pmessages = (Inr r, s')"
  have g: "\<not> (falsy pname \<and> falsy pdescription \<and> pmessages = None)"
  proof
    assume "falsy pname \<and> falsy pdescription \<and> pmessages = None"
    with u show False by (simp add: updatePrompt_def split: if_splits)
  qed
  from u have "prompt r = updatedPrompt existing now pname pdescription pmessages"
    unfolding updatePrompt_found[OF assms g] by (auto split: prod.splits sum.splits)
  with m updatedPrompt_keeps_multi
  show "isMultiMessagePrompt (prompt r)" "content (prompt r) = content existing"
    by simp_all
qed

lemma greeting_single: "\<not> isMultiMessagePrompt greeting"
  by (simp add: isMultiMessagePrompt_def greeting_def)

lemma chat_multi: "isMultiMessagePrompt chat"
  by (simp add: isMultiMessagePrompt_def chat_def)

lemma sample_fs_writable: "fault sample_fs (WriteFile f) = None"
  by (simp add: sample_fs_def no_faults_def)

theorem update_converts_single_content_witness:
  "\<not> blank ''prompt-1''
   \<and> fst (readJSONFile sample_fs (''prompt-1'' @ ''.json'')) = Inr greeting
   \<and> \<not> isMultiMessagePrompt greeting
   \<and> fault sample_fs (WriteFile (''prompt-1'' @ ''.json'')) = None
   \<and> (\<exists>r s'. updatePrompt sample_fs ''T1'' ''prompt-1'' None None (Some chat_messages) = (Inr r, s')
         \<and> fst (readJSONFile s' (''prompt-1'' @ ''.json'')) = Inr (prompt r)
         \<and> version (prompt r) = Some ''2.0'' \<and> content (prompt r) = None
         \<and> id' (prompt r) = ''prompt-1'' \<and> createdAt (prompt r) = ''T0''
         \<and> variables (prompt r) = [''name''])
   \<and> isMultiMessagePrompt chat
   \<and> (\<exists>r s'. updatePrompt sample_fs ''T1'' ''prompt-2'' (Some ''Talk'') None None = (Inr r, s')
         \<and> isMultiMessagePrompt (prompt r) \<and> content (prompt r) = None)"
proof -
  note w = sample_fs_writable[of "''prompt-1'' @ ''.json''"]
  have v: "extractVariablesFromMessages chat_messages = [''name'']" by code_simp
  from update_converts_single_content[OF blank_prompt_1 read_prompt_1,
      of "''T1''" None None chat_messages] greeting_single w
  obtain r s' where
    "updatePrompt sample_fs ''T1'' ''prompt-1'' None None (Some chat_messages) = (Inr r, s')
      \<and> fst (readJSONFile s' (''prompt-1'' @ ''.json'')) = Inr (prompt r)
      \<and> isMultiMessagePrompt (prompt r) \<and> version (prompt r) = Some ''2.0''
      \<and> content (prompt r) = None \<and> \<not> isSingleContentPrompt (prompt r)
      \<and> id' (prompt r) = id' greeting \<and> createdAt (prompt r) = createdAt greeting
      \<and> messages (prompt r) = Some chat_messages
      \<and> variables (prompt r) = extractVariablesFromMessages chat_messages"
    by blast
  then have first: "\<exists>r s'. updatePrompt sample_fs ''T1'' ''prompt-1'' None None (Some chat_messages) = (Inr r, s')
         \<and> fst (readJSONFile s' (''prompt-1'' @ ''.json'')) = Inr (prompt r)
         \<and> version (prompt r) = Some ''2.0'' \<and> content (prompt r) = None
         \<and> id' (prompt r) = ''prompt-1'' \<and> createdAt (prompt r) = ''T0''
         \<and> variables (prompt r) = [''name'']"
    using v by (auto simp: greeting_def)
  have "\<not> (falsy (Some ''Talk'') \<and> falsy None \<and> (None :: PromptMessage list option) = None)"
    by (simp add: falsy_def)
  from updatePrompt_written[OF blank_prompt_2 read_prompt_2 this
      sample_fs_writable[of "''prompt-2'' @ ''.json''"], of "''T1''"]
  obtain r2 s2 where u2: "updatePrompt sample_fs ''T1'' ''prompt-2'' (Some ''Talk'') None None = (Inr r2, s2)"
    by blast
  with update_converts_single_content[OF blank_prompt_2 read_prompt_2,
      of "''T1''" "Some ''Talk''" None _ None] chat_multi
  have "isMultiMessagePrompt (prompt r2) \<and> content (prompt r2) = content chat" by blast
  then have "isMultiMessagePrompt (prompt r2) \<and> content (prompt r2) = None"
    by (simp add: chat_def)
  with u2 have second: "\<exists>r s'. updatePrompt sample_fs ''T1'' ''prompt-2'' (Some ''Talk'') None None = (Inr r, s')
         \<and> isMultiMessagePrompt (prompt r) \<and> content (prompt r) = None"
    by blast
  from first second blank_prompt_1 read_prompt_1 greeting_single w chat_multi
  show ?thesis by blast
qed

text \<open>
  Claim C4, as amended. Let an entity be stored under a (non-blank) id, and let the
  description be absent or not empty. Then \<open>updatePrompt\<close> throws a \<open>ValidationError\<close>
  exactly when the name is absent or empty, the description is absent and the messages
  are absent; the message is ``At least one field to update must be provided''.
\<close>

theorem update_requires_a_field:
  assumes "\<not> blank pid" and "fst (readJSONFile s (pid @ ''.json'')) = Inr existing"
    and "pdescription \<noteq> Some []"
  shows "((\<exists>msg. fst (updatePrompt s now pid pname pdescription pmessages)
                  = Inl (ValidationError msg))
          \<longleftrightarrow> (pname = None \<or> pname = Some []) \<and> pdescription = None \<and> pmessages = None)
       \<and> ((pname = None \<or> pname = Some []) \<and> pdescription = None \<and> pmessages = None \<longrightarrow>
            updatePrompt s now pid pname pdescription pmessages
              = (Inl (ValidationError ''At least one field to update must be provided''), s))"
proof (cases "falsy pname \<and> falsy pdescription \<and> pmessages = None")
  case True
  from True assms(3) have "(pname = None \<or> pname = Some []) \<and> pdescription = None \<and> pmessages = None"
    by (auto simp: falsy_def)
  moreover from True assms(1) have "updatePrompt s now pid pname pdescription pmessages
      = (Inl (ValidationError ''At least one field to update must be provided''), s)"
    by (simp add: updatePrompt_def)
  ultimately show ?thesis by simp
next
  case False
  then have n: "\<not> ((pname = None \<or> pname = Some []) \<and> pdescription = None \<and> pmessages = None)"
    by (auto simp: falsy_def)
  have "fst (updatePrompt s now pid pname pdescription pmessages) \<noteq> Inl (ValidationError msg)"
    for msg
    unfolding updatePrompt_found[OF assms(1,2) False]
    by (auto simp: writeJSONFile_def rethrow_def split: option.split)
  with n show ?thesis by blast
qed

theorem update_requires_a_field_witness:
  "\<not> blank ''prompt-1''
   \<and> fst (readJSONFile sample_fs (''prompt-1'' @ ''.json'')) = Inr greeting
   \<and> updatePrompt sample_fs ''T1'' ''prompt-1'' None None None
       = (Inl (ValidationError ''At least one field to update must be provided''), sample_fs)
   \<and> (\<forall>msg. fst (updatePrompt sample_fs ''T1'' ''prompt-1'' None (Some ''A greeting'') None)
              \<noteq> Inl (ValidationError msg))"
proof -
  have d1: "(None :: string option) \<noteq> Some []" and d2: "Some ''A greeting'' \<noteq> Some []"
    by simp_all
  from update_requires_a_field[OF blank_prompt_1 read_prompt_1 d1, of "''T1''" None None]
  have "updatePrompt sample_fs ''T1'' ''prompt-1'' None None None
       = (Inl (ValidationError ''At least one field to update must be provided''), sample_fs)"
    by blast
  moreover
  from update_requires_a_field[OF blank_prompt_1 read_prompt_1 d2, of "''T1''" None None]
  have "\<forall>msg. fst (updatePrompt sample_fs ''T1'' ''prompt-1'' None (Some ''A greeting'') None)
              \<noteq> Inl (ValidationError msg)"
    by blast
  ultimately show ?thesis using blank_prompt_1 read_prompt_1 by blast
qed

text \<open>
  The claim as stated fails: the guard tests the fields for truthiness, and the empty
  string is falsy, so a call that supplies an empty name (and nothing else) is refused
  like a call that supplies no field.
\<close>

theorem update_refuses_empty_name:
  "fst (readJSONFile sample_fs (''prompt-1'' @ ''.json'')) = Inr greeting
   \<and> updatePrompt sample_fs ''T1'' ''prompt-1'' (Some []) None None
       = (Inl (ValidationError ''At least one field to update must be provided''), sample_fs)"
  using read_prompt_1 blank_prompt_1 by (simp add: updatePrompt_def falsy_def)

section \<open>The time of the last update\<close>

text \<open>
  Claim C2, as amended. An entity returned by \<open>addMultiMessagePrompt\<close> carries no
  \<open>updatedAt\<close>; an entity returned by \<open>addPrompt\<close> carries an \<open>updatedAt\<close> equal to its
  \<open>createdAt\<close>, the time of its creation; every entity returned by \<open>updatePrompt\<close> carries
  an \<open>updatedAt\<close>, the time of the update.
\<close>

theorem updatedAt_presence:
  "(\<forall>p s'. addMultiMessagePrompt s uuid now pname pdescription ms = (Inr p, s') \<longrightarrow>
       updatedAt p = None)
   \<and> (\<forall>p s'. addPrompt s uuid now pname pcontent pdescription = (Inr p, s') \<longrightarrow>
       updatedAt p = Some now \<and> createdAt p = now)
   \<and> (\<forall>r s'. updatePrompt s now pid uname udescription umessages = (Inr r, s') \<longrightarrow>
       updatedAt (prompt r) = Some now)"
proof (intro conjI allI impI)
  fix p s'
  assume "addMultiMessagePrompt s uuid now pname pdescription ms = (Inr p, s')"
  then show "updatedAt p = None"
    by (auto simp: addMultiMessagePrompt_def Let_def split: if_splits prod.splits sum.splits)
next
  fix p s'
  assume a: "addPrompt s uuid now pname pcontent pdescription = (Inr p, s')"
  then show "updatedAt p = Some now"
    by (auto simp: addPrompt_def Let_def split: if_splits prod.splits sum.splits)
  from a show "createdAt p = now"
    by (auto simp: addPrompt_def Let_def split: if_splits prod.splits sum.splits)
next
  fix r s'
  assume "updatePrompt s now pid uname udescription umessages = (Inr r, s')"
  then obtain existing where "prompt r = updatedPrompt existing now uname udescription umessages"
    by (auto dest: updatePrompt_result)
  then show "updatedAt (prompt r) = Some now"
    by (simp add: updatedAt_updatedPrompt)
qed

lemma addPrompt_sample:
  "fst (addPrompt empty_fs ''3f2a9c1e-7b4d'' ''T0'' ''Greeting'' ''Hello {{name}}!'' None) =
     Inr \<lparr>id' = ''prompt-3f2a9c1e'', name = ''Greeting'', description = Some [],
          variables = [''name''], createdAt = ''T0'', updatedAt = Some ''T0'',
          content = Some ''Hello {{name}}!'', version = None, messages = None\<rparr>"
  by code_simp

lemma addMultiMessagePrompt_sample:
  "fst (addMultiMessagePrompt empty_fs ''3f2a9c1e-7b4d'' ''T0'' ''Chat'' None chat_messages) =
     Inr \<lparr>id' = ''prompt-3f2a9c1e'', name = ''Chat'', description = Some [],
          variables = [''name''], createdAt = ''T0'', updatedAt = None,
          content = None, version = Some ''2.0'', messages = Some chat_messages\<rparr>"
  by code_simp

theorem updatedAt_presence_witness:
  "(\<exists>p s'. addMultiMessagePrompt empty_fs ''3f2a9c1e-7b4d'' ''T0'' ''Chat'' None chat_messages = (Inr p, s')
       \<and> updatedAt p = None)
   \<and> (\<exists>p s'. addPrompt empty_fs ''3f2a9c1e-7b4d'' ''T0'' ''Greeting'' ''Hello {{name}}!'' None = (Inr p, s')
       \<and> updatedAt p = Some ''T0'' \<and> createdAt p = ''T0'')
   \<and> (\<exists>r s'. updatePrompt sample_fs ''T1'' ''prompt-2'' (Some ''Talk'') None None = (Inr r, s')
       \<and> updatedAt (prompt r) = Some ''T1'')"
proof -
  note t = updatedAt_presence
  obtain p1 s1 where
    a1: "addMultiMessagePrompt empty_fs ''3f2a9c1e-7b4d'' ''T0'' ''Chat'' None chat_messages = (Inr p1, s1)"
    using addMultiMessagePrompt_sample by (metis prod.collapse)
  with t have "updatedAt p1 = None" by blast
  with a1 have c1: "\<exists>p s'. addMultiMessagePrompt empty_fs ''3f2a9c1e-7b4d'' ''T0'' ''Chat'' None chat_messages = (Inr p, s')
       \<and> updatedAt p = None"
    by blast
  obtain p2 s2 where
    a2: "addPrompt empty_fs ''3f2a9c1e-7b4d'' ''T0'' ''Greeting'' ''Hello {{name}}!'' None = (Inr p2, s2)"
    using addPrompt_sample by (metis prod.collapse)
  with t have "updatedAt p2 = Some ''T0'' \<and> createdAt p2 = ''T0''" by blast
  with a2 have c2: "\<exists>p s'. addPrompt empty_fs ''3f2a9c1e-7b4d'' ''T0'' ''Greeting'' ''Hello {{name}}!'' None = (Inr p, s')
       \<and> updatedAt p = Some ''T0'' \<and> createdAt p = ''T0''"
    by blast
  have "\<not> (falsy (Some ''Talk'') \<and> falsy None \<and> (None :: PromptMessage list option) = None)"
    by (simp add: falsy_def)
  from updatePrompt_written[OF blank_prompt_2 read_prompt_2 this
      sample_fs_writable[of "''prompt-2'' @ ''.json''"], of "''T1''"]
  obtain r s3 where a3: "updatePrompt sample_fs ''T1'' ''prompt-2'' (Some ''Talk'') None None = (Inr r, s3)"
    by blast
  with t have "updatedAt (prompt r) = Some ''T1''" by blast
  with a3 have c3: "\<exists>r s'. updatePrompt sample_fs ''T1'' ''prompt-2'' (Some ''Talk'') None None = (Inr r, s')
       \<and> updatedAt (prompt r) = Some ''T1''"
    by blast
  from c1 c2 c3 show ?thesis by blast
qed

text \<open>
  The claim as stated fails for \<open>addPrompt\<close>: the entity it returns has never been
  modified and carries an \<open>updatedAt\<close>, set with \<open>createdAt\<close> to the time of creation.
\<close>

theorem addPrompt_sets_updatedAt:
  "fst (addPrompt empty_fs ''3f2a9c1e-7b4d'' ''T0'' ''Greeting'' ''Hello {{name}}!'' None) =
     Inr \<lparr>id' = ''prompt-3f2a9c1e'', name = ''Greeting'', description = Some [],
          variables = [''name''], createdAt = ''T0'', updatedAt = Some ''T0'',
          content = Some ''Hello {{name}}!'', version = None, messages = None\<rparr>"
  by (rule addPrompt_sample)

section \<open>The shape of stored messages\<close>

text \<open>
  \<open>addMultiMessagePrompt\<close> checks the messages before it stores them: an entity it returns
  has at least one message, and every message has a role among \<open>user\<close> and \<open>assistant\<close>
  and a content with a text when its type is \<open>text\<close> and an image when it is \<open>image\<close>.
\<close>

lemma addMultiMessagePrompt_validates:
  assumes "addMultiMessagePrompt s uuid now pname pdescription ms = (Inr p, s')"
  shows "messages p = Some ms \<and> ms \<noteq> [] \<and> list_all isValidMessage ms"
  using assms
  by (auto simp: addMultiMessagePrompt_def validateMessages_def Let_def
           split: if_splits prod.splits sum.splits)

lemma isValidMessage_shape:
  assumes "isValidMessage m"
  shows "(role m = ''user'' \<or> role m = ''assistant'')
       \<and> (type (content' m) = ''text'' \<and> text' (content' m) \<noteq> None
          \<or> type (content' m) = ''image'' \<and> image (content' m) \<noteq> None)"
  using assms by (auto simp: isValidMessage_def split: if_splits)

text \<open>
  Claim C3 does not hold of \<open>updatePrompt\<close>, which stores the messages it is given
  without the check: on the stored multi-message entity, an update with the empty list
  of messages returns and stores a multi-message entity without any message, and an
  update with a message of type \<open>text\<close> that has no text stores that message.
\<close>

theorem update_stores_unchecked_messages:
  "validateMessages [] = False \<and> validateMessages [textless] = False
   \<and> fst (readJSONFile sample_fs (''prompt-2'' @ ''.json'')) = Inr chat
   \<and> isMultiMessagePrompt chat
   \<and> (\<exists>r s'. updatePrompt sample_fs ''T1'' ''prompt-2'' None None (Some []) = (Inr r, s')
         \<and> fst (readJSONFile s' (''prompt-2'' @ ''.json'')) = Inr (prompt r)
         \<and> isMultiMessagePrompt (prompt r) \<and> messages (prompt r) = Some [])
   \<and> (\<exists>r s'. updatePrompt sample_fs ''T1'' ''prompt-2'' None None (Some [textless]) = (Inr r, s')
         \<and> fst (readJSONFile s' (''prompt-2'' @ ''.json'')) = Inr (prompt r)
         \<and> isMultiMessagePrompt (prompt r) \<and> messages (prompt r) = Some [textless])"
proof -
  have v: "validateMessages [] = False \<and> validateMessages [textless] = False"
    by (simp add: validateMessages_def isValidMessage_def textless_def)
  have stored: "\<exists>r s'. updatePrompt sample_fs ''T1'' ''prompt-2'' None None (Some ms) = (Inr r, s')
         \<and> fst (readJSONFile s' (''prompt-2'' @ ''.json'')) = Inr (prompt r)
         \<and> isMultiMessagePrompt (prompt r) \<and> messages (prompt r) = Some ms" for ms
  proof -
    let ?new = "updatedPrompt chat ''T1'' None None (Some ms)"
    have "\<not> (falsy None \<and> falsy None \<and> Some ms = None)" by simp
    from updatePrompt_written[OF blank_prompt_2 read_prompt_2 this
        sample_fs_writable[of "''prompt-2'' @ ''.json''"], of "''T1''"]
    obtain s' where u: "updatePrompt sample_fs ''T1'' ''prompt-2'' None None (Some ms) =
           (Inr \<lparr>success = True,
                 message = ''Prompt '' @ ''prompt-2'' @ '' updated successfully'',
                 prompt = ?new\<rparr>, s')"
      and p: "fst (readJSONFile s' (''prompt-2'' @ ''.json'')) = Inr ?new"
      by blast
    have "isMultiMessagePrompt ?new \<and> messages ?new = Some ms"
      using chat_multi by (simp add: updatedPrompt_def isMultiMessagePrompt_def)
    with u p show ?thesis by simp
  qed
  from v stored[of "[]"] stored[of "[textless]"] read_prompt_2 chat_multi
  show ?thesis by blast
qed

end
